theory Spec2Isabelle
  imports Complex_Main "HOL-Library.Multiset"
begin

section \<open>The generation engine of the Llama 3 reference implementation\<close>

text \<open>
  The embedding follows \<^verbatim>\<open>generation.py\<close>: the nucleus sampler \<^verbatim>\<open>sample_top_p\<close>, the
  decode loop \<^verbatim>\<open>Llama.generate\<close> and the two adapters \<^verbatim>\<open>text_completion\<close> and
  \<^verbatim>\<open>chat_completion\<close>. Conventions:
  \<^item> the batch size is the constant 1 of the source (\<^verbatim>\<open>bsz = 1\<close>), so every tensor of
    shape \<open>(1, n)\<close> is a list of length \<open>n\<close>;
  \<^item> floating-point tensors are lists of exact reals: rounding, NaN and infinities are not
    modelled, and a division by a zero total (which makes \<^verbatim>\<open>torch.multinomial\<close> raise) is
    an explicit error;
  \<^item> the network \<^verbatim>\<open>self.model.forward\<close>, the tokenizer and the chat formatter are
    collaborators outside this file of the repository and are fields of a record;
  \<^item> the random choice of \<^verbatim>\<open>torch.multinomial\<close> is an oracle \<open>rng\<close>: given the decode
    position and the weights it returns the drawn index;
  \<^item> every exception of the source is a value of type \<open>error\<close>;
  \<^item> the generator is run to exhaustion: the list \<open>yielded\<close> holds the TokenResults in
    the order the generator yields them.
\<close>

subsection \<open>Data\<close>

datatype error = AssertionError | RuntimeError | IndexError | ModelError

datatype StopReason = end_of_turn | end_of_message | out_of_tokens

text \<open>\<^verbatim>\<open>TokenResult(token, text, logprobs)\<close>; the fields carry the prefix \<open>tr_\<close>.\<close>

record TokenResult =
  tr_token :: int
  tr_text :: string
  tr_logprobs :: "real list option"

text \<open>\<^verbatim>\<open>CompletionPrediction(generation, decoded_tokens, logprobs)\<close>, prefix \<open>cp_\<close>.\<close>

record CompletionPrediction =
  cp_generation :: string
  cp_decoded_tokens :: "string list option"
  cp_logprobs :: "real list option list option"

text \<open>\<^verbatim>\<open>ChatPrediction(generation, decoded_tokens, logprobs)\<close>, prefix \<open>chat_\<close>; the
  type \<open>'c\<close> is the formatter's \<^verbatim>\<open>CompletionMessage\<close>.\<close>

record 'c ChatPrediction =
  chat_generation :: 'c
  chat_decoded_tokens :: "string list option"
  chat_logprobs :: "real list option list option"

text \<open>
  The object \<^verbatim>\<open>self\<close>: \<^verbatim>\<open>self.model.params.max_seq_len\<close>,
  \<^verbatim>\<open>self.model.params.max_batch_size\<close>, \<^verbatim>\<open>self.model.forward\<close> (it may raise),
  \<^verbatim>\<open>self.tokenizer.pad_id\<close>, \<^verbatim>\<open>self.tokenizer.stop_tokens\<close>,
  \<^verbatim>\<open>self.tokenizer.encode(s, bos, eos)\<close> and \<^verbatim>\<open>self.tokenizer.decode\<close>.
\<close>

record Llama =
  max_seq_len :: int
  max_batch_size :: int
  forward :: "int list \<Rightarrow> nat \<Rightarrow> error + real list list"
  pad_id :: int
  stop_tokens :: "int list"
  tok_encode :: "string \<Rightarrow> bool \<Rightarrow> bool \<Rightarrow> int list"
  tok_decode :: "int list \<Rightarrow> string"

text \<open>\<^verbatim>\<open>self.formatter\<close>: \<^verbatim>\<open>encode_dialog_prompt(messages, tool_prompt_format).tokens\<close>
  and \<^verbatim>\<open>decode_assistant_message(tokens, stop_reason)\<close>.\<close>

record ('m, 'f, 'c) ChatFormat =
  encode_dialog_prompt :: "'m \<Rightarrow> 'f \<Rightarrow> int list"
  decode_assistant_message :: "int list \<Rightarrow> StopReason \<Rightarrow> 'c"

subsection \<open>The sampler: \<^verbatim>\<open>sample_top_p\<close>\<close>

text \<open>\<^verbatim>\<open>torch.cumsum\<close>: the running sums.\<close>

fun cumsum_from :: "real \<Rightarrow> real list \<Rightarrow> real list" where
  "cumsum_from acc [] = []"
| "cumsum_from acc (x # xs) = (acc + x) # cumsum_from (acc + x) xs"

definition cumsum :: "real list \<Rightarrow> real list" where
  "cumsum xs = cumsum_from 0 xs"

text \<open>
  \<^verbatim>\<open>torch.sort(probs, dim=-1, descending=True)\<close> returns the sorted values and the
  permutation that sorts them. The entries are sorted together with their positions; ties
  keep their original order (torch promises no order among ties).
\<close>

definition sort_descending :: "real list \<Rightarrow> (real \<times> nat) list" where
  "sort_descending probs = sort_key (\<lambda>(x, i). - x) (zip probs [0..<length probs])"

definition probs_sort :: "real list \<Rightarrow> real list" where
  "probs_sort probs = map fst (sort_descending probs)"

definition probs_idx :: "real list \<Rightarrow> nat list" where
  "probs_idx probs = map snd (sort_descending probs)"

text \<open>\<^verbatim>\<open>mask = probs_sum - probs_sort > p\<close>\<close>

definition top_p_mask :: "real list \<Rightarrow> real \<Rightarrow> bool list" where
  "top_p_mask probs p =
     map (\<lambda>(s, x). s - x > p) (zip (cumsum (probs_sort probs)) (probs_sort probs))"

text \<open>\<^verbatim>\<open>probs_sort[mask] = 0.0\<close>\<close>

definition top_p_kept :: "real list \<Rightarrow> real \<Rightarrow> real list" where
  "top_p_kept probs p =
     map (\<lambda>(m, x). if m then 0 else x) (zip (top_p_mask probs p) (probs_sort probs))"

text \<open>\<^verbatim>\<open>probs_sort.div_(probs_sort.sum(dim=-1, keepdim=True))\<close>\<close>

definition top_p_renorm :: "real list \<Rightarrow> real \<Rightarrow> real list" where
  "top_p_renorm probs p =
     map (\<lambda>x. x / sum_list (top_p_kept probs p)) (top_p_kept probs p)"

text \<open>
  \<^verbatim>\<open>torch.multinomial(w, num_samples=1)\<close> raises on a negative weight and on weights
  that sum to zero; otherwise it returns the index the random source picks.
\<close>

definition multinomial :: "(real list \<Rightarrow> nat) \<Rightarrow> real list \<Rightarrow> error + nat" where
  "multinomial draw w =
     (if list_ex (\<lambda>x. x < 0) w \<or> sum_list w \<le> 0 then Inl RuntimeError else Inr (draw w))"

text \<open>\<^verbatim>\<open>torch.gather(probs_idx, -1, next_token)\<close> raises on an index out of range.\<close>

definition gather :: "nat list \<Rightarrow> nat \<Rightarrow> error + nat" where
  "gather idx k = (if k < length idx then Inr (idx ! k) else Inl IndexError)"

text \<open>
  \<^verbatim>\<open>sample_top_p(probs, p)\<close>. When the kept entries sum to zero the in-place division
  yields NaN weights and \<^verbatim>\<open>torch.multinomial\<close> raises.
\<close>

definition sample_top_p :: "(real list \<Rightarrow> nat) \<Rightarrow> real list \<Rightarrow> real \<Rightarrow> error + nat" where
  "sample_top_p draw probs p =
     (if sum_list (top_p_kept probs p) = 0 then Inl RuntimeError
      else case multinomial draw (top_p_renorm probs p) of
             Inl e \<Rightarrow> Inl e
           | Inr next_token \<Rightarrow> gather (probs_idx probs) next_token)"

text \<open>A probability distribution: a non-empty list of non-negative reals that sum to 1.\<close>

definition distribution :: "real list \<Rightarrow> bool" where
  "distribution probs \<longleftrightarrow> probs \<noteq> [] \<and> list_all (\<lambda>x. 0 \<le> x) probs \<and> sum_list probs = 1"

subsection \<open>Choosing the next token\<close>

text \<open>
  \<^verbatim>\<open>torch.softmax(x, dim=-1)\<close>, over the reals. Its entries here sum to exactly 1; the
  float32 output of torch sums to 1 only up to rounding.
  So what is proved of the sampler on the output of a softmax uses that the entries are
  not negative and a bound on their total, never that the total is exactly 1.
\<close>

definition softmax :: "real list \<Rightarrow> real list" where
  "softmax xs = map (\<lambda>x. exp x / sum_list (map exp xs)) xs"

text \<open>
  \<^verbatim>\<open>torch.argmax(x, dim=-1)\<close>: the index of the first maximal entry; it raises on an
  empty dimension.
\<close>

fun argmax_from :: "nat \<Rightarrow> real \<Rightarrow> nat \<Rightarrow> real list \<Rightarrow> nat" where
  "argmax_from best best_val i [] = best"
| "argmax_from best best_val i (x # xs) =
     (if best_val < x then argmax_from i x (Suc i) xs else argmax_from best best_val (Suc i) xs)"

definition argmax :: "real list \<Rightarrow> error + nat" where
  "argmax xs = (case xs of [] \<Rightarrow> Inl IndexError | x # rest \<Rightarrow> Inr (argmax_from 0 x 1 rest))"

text \<open>
  Lines 198 to 204 of \<^verbatim>\<open>generate\<close>: \<^verbatim>\<open>logits[:, -1]\<close> raises when the forward pass
  returned no position; a positive temperature samples from
  \<^verbatim>\<open>softmax(logits[:, -1] / temperature)\<close>, any other takes the arg-max of the logits.
\<close>

definition sample_next ::
  "real \<Rightarrow> real \<Rightarrow> (real list \<Rightarrow> nat) \<Rightarrow> real list list \<Rightarrow> error + int" where
  "sample_next temperature top_p draw logits =
     (if logits = [] then Inl IndexError
      else if temperature > 0 then
        (case sample_top_p draw (softmax (map (\<lambda>x. x / temperature) (last logits))) top_p of
           Inl e \<Rightarrow> Inl e
         | Inr k \<Rightarrow> Inr (int k))
      else
        (case argmax (last logits) of
           Inl e \<Rightarrow> Inl e
         | Inr k \<Rightarrow> Inr (int k)))"

subsection \<open>Log-probabilities\<close>

definition log_softmax_at :: "real list \<Rightarrow> nat \<Rightarrow> real" where
  "log_softmax_at row t = row ! t - ln (sum_list (map exp row))"

text \<open>
  \<^verbatim>\<open>-F.cross_entropy(input=logits.transpose(1, 2), target=target, reduction="none",
  ignore_index=pad_id)\<close>: one value per position, 0 where the target is the ignored index;
  it raises when the shapes differ and when a target that is not ignored is no class index.
\<close>

definition neg_cross_entropy :: "int \<Rightarrow> real list list \<Rightarrow> int list \<Rightarrow> error + real list" where
  "neg_cross_entropy ignore_index logits target =
     (if length logits \<noteq> length target then Inl RuntimeError
      else if list_ex (\<lambda>(row, t). t \<noteq> ignore_index \<and> (t < 0 \<or> int (length row) \<le> t))
                (zip logits target)
        then Inl IndexError
      else Inr (map (\<lambda>(row, t). if t = ignore_index then 0 else log_softmax_at row (nat t))
                  (zip logits target)))"

subsection \<open>The token buffer\<close>

text \<open>The slice \<^verbatim>\<open>xs[a:b]\<close>.\<close>

definition slice :: "'a list \<Rightarrow> nat \<Rightarrow> nat \<Rightarrow> 'a list" where
  "slice xs a b = take (b - a) (drop a xs)"

text \<open>
  The slice assignment \<^verbatim>\<open>xs[a:b] = vs\<close> of a tensor: the sizes must agree, except that
  a single value is broadcast over the slice.
\<close>

definition assign_slice :: "'a list \<Rightarrow> nat \<Rightarrow> nat \<Rightarrow> 'a list \<Rightarrow> error + 'a list" where
  "assign_slice xs a b vs =
     (let n = length (slice xs a b) in
      if length vs = n then Inr (take a xs @ vs @ drop (a + n) xs)
      else if length vs = 1 then Inr (take a xs @ replicate n (hd vs) @ drop (a + n) xs)
      else Inl RuntimeError)"

text \<open>
  Lines 175 to 177: \<^verbatim>\<open>torch.full((1, total_len), pad_id)\<close>, which raises on a negative
  size, then \<^verbatim>\<open>tokens[0, :len(t)] = torch.tensor(t)\<close>.
\<close>

definition init_tokens :: "int \<Rightarrow> int \<Rightarrow> int list \<Rightarrow> error + int list" where
  "init_tokens pad total_len t =
     (if total_len < 0 then Inl RuntimeError
      else assign_slice (replicate (nat total_len) pad) 0 (length t) t)"

subsection \<open>The decode loop: \<^verbatim>\<open>Llama.generate\<close>\<close>

text \<open>The line \<^verbatim>\<open>cprint(f"Out of token budget {max_prompt_len} vs {params.max_seq_len}")\<close>.\<close>

datatype console_msg = OutOfTokenBudget nat int

text \<open>
  The local variables of \<^verbatim>\<open>generate\<close> together with what it has done so far: the
  TokenResults yielded, the calls of the forward pass (window and start offset), the lines
  printed and the exception that ended it, if any.
\<close>

record gen_state =
  tokens :: "int list"
  token_logprobs :: "real list option"
  prev_pos :: nat
  eos_reached :: bool
  yielded :: "TokenResult list"
  forward_calls :: "(int list \<times> nat) list"
  console :: "console_msg list"
  raised :: "error option"

text \<open>Lines 184 to 191: the branch \<^verbatim>\<open>if min_prompt_len == total_len\<close>.\<close>

definition prefill :: "Llama \<Rightarrow> gen_state \<Rightarrow> gen_state" where
  "prefill self st =
     (let st1 = st\<lparr>forward_calls := forward_calls st @ [(tokens st, prev_pos st)]\<rparr> in
      case forward self (tokens st) (prev_pos st) of
        Inl e \<Rightarrow> st1\<lparr>raised := Some e\<rparr>
      | Inr logits \<Rightarrow>
          (case neg_cross_entropy (pad_id self) logits (tokens st) of
             Inl e \<Rightarrow> st1\<lparr>raised := Some e\<rparr>
           | Inr lp \<Rightarrow> st1\<lparr>token_logprobs := Some lp\<rparr>))"

text \<open>Lines 213 to 219: the update of \<^verbatim>\<open>token_logprobs\<close> when \<^verbatim>\<open>logprobs\<close> is set.\<close>

definition update_logprobs ::
  "Llama \<Rightarrow> bool \<Rightarrow> real list list \<Rightarrow> int list \<Rightarrow> gen_state \<Rightarrow> nat \<Rightarrow> error + real list option" where
  "update_logprobs self logprobs logits toks st cur_pos =
     (if logprobs then
        (case neg_cross_entropy (pad_id self) logits (slice toks (prev_pos st + 1) (cur_pos + 1)) of
           Inl e \<Rightarrow> Inl e
         | Inr vals \<Rightarrow>
             (case token_logprobs st of
                None \<Rightarrow> Inr None
              | Some lp \<Rightarrow>
                  (case assign_slice lp (prev_pos st + 1) (cur_pos + 1) vals of
                     Inl e \<Rightarrow> Inl e
                   | Inr lp' \<Rightarrow> Inr (Some lp'))))
      else Inr (token_logprobs st))"

text \<open>
  One iteration of the loop, lines 196 to 233; \<open>text_mask\<close> is \<^verbatim>\<open>input_text_mask\<close>. An
  exception leaves the state as it was when it was raised, with \<open>raised\<close> set.
\<close>

definition decode_step ::
  "Llama \<Rightarrow> real \<Rightarrow> real \<Rightarrow> bool \<Rightarrow> (real list \<Rightarrow> nat) \<Rightarrow> bool list \<Rightarrow> gen_state \<Rightarrow> nat
     \<Rightarrow> gen_state" where
  "decode_step self temperature top_p logprobs draw text_mask st cur_pos =
     (let window = slice (tokens st) (prev_pos st) cur_pos;
          st1 = st\<lparr>forward_calls := forward_calls st @ [(window, prev_pos st)]\<rparr> in
      case forward self window (prev_pos st) of
        Inl e \<Rightarrow> st1\<lparr>raised := Some e\<rparr>
      | Inr logits \<Rightarrow>
          (case sample_next temperature top_p draw logits of
             Inl e \<Rightarrow> st1\<lparr>raised := Some e\<rparr>
           | Inr sampled \<Rightarrow>
               if \<not> (cur_pos < length text_mask \<and> cur_pos < length (tokens st))
               then st1\<lparr>raised := Some IndexError\<rparr>
               else
                 let next_token =
                       (if text_mask ! cur_pos then tokens st ! cur_pos else sampled);
                     toks = (tokens st)[cur_pos := next_token] in
                 case update_logprobs self logprobs logits toks st cur_pos of
                   Inl e \<Rightarrow> st1\<lparr>tokens := toks, raised := Some e\<rparr>
                 | Inr lps \<Rightarrow>
                     st1\<lparr>tokens := toks,
                         token_logprobs := lps,
                         eos_reached := eos_reached st \<or>
                           (\<not> text_mask ! cur_pos \<and> next_token \<in> set (stop_tokens self)),
                         yielded := yielded st @
                           [\<lparr>tr_token = next_token,
                             tr_text = tok_decode self [next_token],
                             tr_logprobs =
                               (if logprobs
                                then map_option (\<lambda>lp. slice lp (prev_pos st + 1) (cur_pos + 1)) lps
                                else None)\<rparr>],
                         prev_pos := cur_pos\<rparr>))"

text \<open>
  \<^verbatim>\<open>for cur_pos in range(min_prompt_len, total_len)\<close> with its \<^verbatim>\<open>break\<close> on
  \<^verbatim>\<open>all(eos_reached)\<close>: a recursion over the positions still to visit.
\<close>

fun decode_loop ::
  "Llama \<Rightarrow> real \<Rightarrow> real \<Rightarrow> bool \<Rightarrow> (nat \<Rightarrow> real list \<Rightarrow> nat) \<Rightarrow> bool list \<Rightarrow> gen_state \<Rightarrow> nat list
     \<Rightarrow> gen_state" where
  "decode_loop self temperature top_p logprobs rng text_mask st [] = st"
| "decode_loop self temperature top_p logprobs rng text_mask st (cur_pos # rest) =
     (let st' = decode_step self temperature top_p logprobs (rng cur_pos) text_mask st cur_pos in
      if raised st' \<noteq> None then st'
      else if eos_reached st' then st'
      else decode_loop self temperature top_p logprobs rng text_mask st' rest)"

text \<open>\<^verbatim>\<open>input_text_mask = tokens != pad_id\<close>, line 183.\<close>

definition input_text_mask :: "Llama \<Rightarrow> int list \<Rightarrow> bool list" where
  "input_text_mask self toks = map (\<lambda>t. t \<noteq> pad_id self) toks"

definition initial_state :: gen_state where
  "initial_state = \<lparr>tokens = [], token_logprobs = None, prev_pos = 0, eos_reached = False,
     yielded = [], forward_calls = [], console = [], raised = None\<rparr>"

text \<open>\<^verbatim>\<open>total_len = min(max_gen_len + max_prompt_len, params.max_seq_len)\<close>\<close>

definition total_len :: "Llama \<Rightarrow> int list \<Rightarrow> int \<Rightarrow> int" where
  "total_len self prompt max_gen_len = min (max_gen_len + int (length prompt)) (max_seq_len self)"

text \<open>
  \<^verbatim>\<open>generate(model_input, max_gen_len, temperature, top_p, logprobs)\<close>, with
  \<open>prompt = model_input.tokens\<close>. The result is the state in which the generator ends.
\<close>

definition generate ::
  "Llama \<Rightarrow> int list \<Rightarrow> int \<Rightarrow> real \<Rightarrow> real \<Rightarrow> bool \<Rightarrow> (nat \<Rightarrow> real list \<Rightarrow> nat) \<Rightarrow> gen_state" where
  "generate self prompt max_gen_len temperature top_p logprobs rng =
     (let min_prompt_len = length prompt;
          max_prompt_len = length prompt in
      if \<not> (1 \<le> max_batch_size self) then initial_state\<lparr>raised := Some AssertionError\<rparr>
      else if int max_prompt_len \<ge> max_seq_len self
        then initial_state\<lparr>console := [OutOfTokenBudget max_prompt_len (max_seq_len self)]\<rparr>
      else
        case init_tokens (pad_id self) (total_len self prompt max_gen_len) prompt of
          Inl e \<Rightarrow> initial_state\<lparr>raised := Some e\<rparr>
        | Inr toks \<Rightarrow>
            let st1 = initial_state\<lparr>tokens := toks,
                        token_logprobs :=
                          (if logprobs then Some (replicate (length toks) 0) else None)\<rparr>;
                st2 = (if int min_prompt_len = total_len self prompt max_gen_len
                       then prefill self st1 else st1)
            in if raised st2 \<noteq> None then st2
               else decode_loop self temperature top_p logprobs rng (input_text_mask self toks) st2
                      [min_prompt_len..<nat (total_len self prompt max_gen_len)])"

subsection \<open>The adapters\<close>

text \<open>The resolution of \<^verbatim>\<open>max_gen_len\<close> at the head of both adapters.\<close>

definition resolve_max_gen_len :: "Llama \<Rightarrow> int option \<Rightarrow> int" where
  "resolve_max_gen_len self max_gen_len =
     (case max_gen_len of
        None \<Rightarrow> max_seq_len self - 1
      | Some n \<Rightarrow> if n = 0 \<or> n \<ge> max_seq_len self then max_seq_len self - 1 else n)"

text \<open>\<^verbatim>\<open>text_completion\<close>: an exception of the generator propagates to the caller.\<close>

definition text_completion ::
  "Llama \<Rightarrow> string \<Rightarrow> real \<Rightarrow> real \<Rightarrow> int option \<Rightarrow> bool \<Rightarrow> (nat \<Rightarrow> real list \<Rightarrow> nat)
     \<Rightarrow> error + CompletionPrediction" where
  "text_completion self prompt temperature top_p max_gen_len logprobs rng =
     (let prompt_tokens = tok_encode self prompt True False;
          out = generate self prompt_tokens (resolve_max_gen_len self max_gen_len)
                  temperature top_p logprobs rng in
      case raised out of
        Some e \<Rightarrow> Inl e
      | None \<Rightarrow>
          let generation = tok_decode self (map tr_token (yielded out)) in
          if logprobs then
            Inr \<lparr>cp_generation = generation,
                 cp_decoded_tokens = Some (map tr_text (yielded out)),
                 cp_logprobs = Some (map tr_logprobs (yielded out))\<rparr>
          else Inr \<lparr>cp_generation = generation, cp_decoded_tokens = None, cp_logprobs = None\<rparr>)"

text \<open>Lines 310 to 313: what one TokenResult does to \<^verbatim>\<open>stop_reason\<close>.\<close>

definition stop_reason_step :: "StopReason option \<Rightarrow> TokenResult \<Rightarrow> StopReason option" where
  "stop_reason_step stop_reason result =
     (if tr_text result = ''<|eot_id|>'' then Some end_of_turn
      else if tr_text result = ''<|eom_id|>'' then Some end_of_message
      else stop_reason)"

text \<open>\<^verbatim>\<open>stop_reason\<close> after the loop, with the default of lines 319 and 320.\<close>

definition chat_stop_reason :: "TokenResult list \<Rightarrow> StopReason" where
  "chat_stop_reason results =
     (case fold (\<lambda>result stop_reason. stop_reason_step stop_reason result) results None of
        None \<Rightarrow> out_of_tokens
      | Some r \<Rightarrow> r)"

definition chat_completion ::
  "Llama \<Rightarrow> ('m, 'f, 'c) ChatFormat \<Rightarrow> 'm \<Rightarrow> real \<Rightarrow> real \<Rightarrow> int option \<Rightarrow> bool \<Rightarrow> 'f
     \<Rightarrow> (nat \<Rightarrow> real list \<Rightarrow> nat) \<Rightarrow> error + 'c ChatPrediction" where
  "chat_completion self formatter messages temperature top_p max_gen_len logprobs
       tool_prompt_format rng =
     (let out = generate self (encode_dialog_prompt formatter messages tool_prompt_format)
                  (resolve_max_gen_len self max_gen_len) temperature top_p logprobs rng in
      case raised out of
        Some e \<Rightarrow> Inl e
      | None \<Rightarrow>
          let message = decode_assistant_message formatter (map tr_token (yielded out))
                          (chat_stop_reason (yielded out)) in
          if logprobs then
            Inr \<lparr>chat_generation = message,
                 chat_decoded_tokens = Some (map tr_text (yielded out)),
                 chat_logprobs = Some (map tr_logprobs (yielded out))\<rparr>
          else Inr \<lparr>chat_generation = message, chat_decoded_tokens = None, chat_logprobs = None\<rparr>)"

subsection \<open>A small instance\<close>

text \<open>
  A model with a context of 8 tokens whose forward pass returns the same row of logits at
  every position, and a tokenizer with pad id \<open>-1\<close> and the single stop token 2, which
  decodes to the end-of-turn marker.
\<close>

definition example_llama :: "real list \<Rightarrow> Llama" where
  "example_llama row =
     \<lparr>max_seq_len = 8, max_batch_size = 1,
      forward = (\<lambda>window start_pos. Inr (map (\<lambda>t. row) window)),
      pad_id = - 1, stop_tokens = [2],
      tok_encode = (\<lambda>s bos eos. (if bos then [0] else []) @ map (\<lambda>c. 1) s @ (if eos then [2] else [])),
      tok_decode = (\<lambda>ts. concat (map (\<lambda>t. if t = 2 then ''<|eot_id|>'' else ''a'') ts))\<rparr>"

subsection \<open>Running sums and the sort\<close>

lemma length_cumsum_from: "length (cumsum_from acc xs) = length xs"
  by (induction xs arbitrary: acc) auto

lemma cumsum_from_nth:
  "i < length xs \<Longrightarrow> cumsum_from acc xs ! i = acc + sum_list (take (Suc i) xs)"
proof (induction xs arbitrary: acc i)
  case Nil
  then show ?case by simp
next
  case (Cons x xs)
  show ?case
  proof (cases i)
    case 0
    then show ?thesis by simp
  next
    case (Suc j)
    with Cons.prems have "j < length xs" by simp
    from Cons.IH [OF this, of "acc + x"] Suc show ?thesis by simp
  qed
qed

lemma length_cumsum: "length (cumsum xs) = length xs"
  by (simp add: cumsum_def length_cumsum_from)

lemma cumsum_minus_self:
  assumes "i < length xs"
  shows "cumsum xs ! i - xs ! i = sum_list (take i xs)"
proof -
  have "take (Suc i) xs = take i xs @ [xs ! i]"
    using assms by (simp add: take_Suc_conv_app_nth)
  then show ?thesis
    using assms by (simp add: cumsum_def cumsum_from_nth)
qed

lemma length_sort_descending: "length (sort_descending probs) = length probs"
  by (simp add: sort_descending_def)

lemma length_probs_sort: "length (probs_sort probs) = length probs"
  by (simp add: probs_sort_def length_sort_descending)

lemma length_probs_idx: "length (probs_idx probs) = length probs"
  by (simp add: probs_idx_def length_sort_descending)

lemma sort_descending_member:
  assumes "(x, i) \<in> set (sort_descending probs)"
  shows "i < length probs \<and> probs ! i = x"
proof -
  from assms have "(x, i) \<in> set (zip probs [0..<length probs])"
    by (simp add: sort_descending_def)
  then obtain k where "k < length probs" "probs ! k = x" "[0..<length probs] ! k = i"
    by (auto simp: set_zip)
  then show ?thesis by simp
qed

lemma probs_idx_lookup:
  assumes "k < length probs"
  shows "probs_idx probs ! k < length probs \<and> probs ! (probs_idx probs ! k) = probs_sort probs ! k"
proof -
  have k: "k < length (sort_descending probs)"
    using assms by (simp add: length_sort_descending)
  then have "sort_descending probs ! k \<in> set (sort_descending probs)"
    by simp
  then have "(fst (sort_descending probs ! k), snd (sort_descending probs ! k)) \<in> set (sort_descending probs)"
    by simp
  from sort_descending_member [OF this] k show ?thesis
    by (simp add: probs_idx_def probs_sort_def)
qed

lemma mset_probs_sort: "mset (probs_sort probs) = mset probs"
proof -
  have "mset (map fst (sort_descending probs)) = mset (map fst (zip probs [0..<length probs]))"
    unfolding sort_descending_def by (simp only: mset_map mset_sort)
  then show ?thesis by (simp add: probs_sort_def)
qed

lemma mset_probs_idx: "mset (probs_idx probs) = mset [0..<length probs]"
proof -
  have "mset (map snd (sort_descending probs)) = mset (map snd (zip probs [0..<length probs]))"
    unfolding sort_descending_def by (simp only: mset_map mset_sort)
  then show ?thesis by (simp add: probs_idx_def)
qed


subsection \<open>Mask, kept entries and renormalisation\<close>

lemma length_top_p_mask: "length (top_p_mask probs p) = length probs"
  by (simp add: top_p_mask_def length_cumsum length_probs_sort)

lemma top_p_mask_nth:
  assumes "i < length probs"
  shows "top_p_mask probs p ! i \<longleftrightarrow> sum_list (take i (probs_sort probs)) > p"
proof -
  have i: "i < length (probs_sort probs)"
    using assms by (simp add: length_probs_sort)
  then have "top_p_mask probs p ! i
      \<longleftrightarrow> cumsum (probs_sort probs) ! i - probs_sort probs ! i > p"
    by (simp add: top_p_mask_def length_cumsum)
  with cumsum_minus_self [OF i] show ?thesis by simp
qed

lemma length_top_p_kept: "length (top_p_kept probs p) = length probs"
  by (simp add: top_p_kept_def length_top_p_mask length_probs_sort)

lemma top_p_kept_nth:
  assumes "i < length probs"
  shows "top_p_kept probs p ! i = (if top_p_mask probs p ! i then 0 else probs_sort probs ! i)"
  using assms by (simp add: top_p_kept_def length_top_p_mask length_probs_sort)

lemma length_top_p_renorm: "length (top_p_renorm probs p) = length probs"
  by (simp add: top_p_renorm_def length_top_p_kept)

lemma sum_list_probs_sort: "sum_list (probs_sort probs) = sum_list probs"
proof -
  have "sum_mset (mset (probs_sort probs)) = sum_mset (mset probs)"
    by (simp only: mset_probs_sort)
  then show ?thesis by (simp only: sum_mset_sum_list)
qed

lemma set_probs_sort: "set (probs_sort probs) = set probs"
proof -
  have "set_mset (mset (probs_sort probs)) = set_mset (mset probs)"
    by (simp only: mset_probs_sort)
  then show ?thesis by (simp only: set_mset_mset)
qed

lemma distribution_nonneg:
  assumes "distribution probs" "x \<in> set probs"
  shows "0 \<le> x"
  using assms by (simp add: distribution_def list_all_iff)


lemma sum_list_nonneg_take:
  assumes "\<And>x. x \<in> set xs \<Longrightarrow> (0::real) \<le> x"
  shows "sum_list (take i xs) \<le> sum_list xs"
proof -
  have "sum_list xs = sum_list (take i xs) + sum_list (drop i xs)"
    by (metis append_take_drop_id sum_list_append)
  moreover have "0 \<le> sum_list (drop i xs)"
    by (rule sum_list_nonneg) (use assms in_set_dropD in fast)
  ultimately show ?thesis by simp
qed

lemma prefix_mass_le_one:
  assumes "distribution probs"
  shows "sum_list (take i (probs_sort probs)) \<le> 1"
proof -
  have "sum_list (take i (probs_sort probs)) \<le> sum_list (probs_sort probs)"
    by (rule sum_list_nonneg_take) (use assms in \<open>simp add: set_probs_sort distribution_nonneg\<close>)
  also have "\<dots> = 1"
    using assms by (simp add: sum_list_probs_sort distribution_def)
  finally show ?thesis .
qed





lemma sum_list_divide: "sum_list (map (\<lambda>x. x / c) xs) = sum_list xs / (c::real)"
  by (induction xs) (simp_all add: add_divide_distrib)




text \<open>
  The same for any list of non-negative weights, whatever their total: a float softmax
  output sums to 1 only up to rounding.
\<close>

lemma prefix_mass_le_total:
  assumes "list_all (\<lambda>x. 0 \<le> x) probs"
  shows "sum_list (take i (probs_sort probs)) \<le> sum_list probs"
proof -
  have "sum_list (take i (probs_sort probs)) \<le> sum_list (probs_sort probs)"
    by (rule sum_list_nonneg_take) (use assms in \<open>simp add: set_probs_sort list_all_iff\<close>)
  then show ?thesis by (simp add: sum_list_probs_sort)
qed

lemma top_p_mask_empty:
  assumes "list_all (\<lambda>x. 0 \<le> x) probs" and "sum_list probs \<le> p"
  shows "top_p_mask probs p = replicate (length probs) False"
proof (rule nth_equalityI)
  show "length (top_p_mask probs p) = length (replicate (length probs) False)"
    by (simp add: length_top_p_mask)
next
  fix i assume "i < length (top_p_mask probs p)"
  then have i: "i < length probs" by (simp add: length_top_p_mask)
  with prefix_mass_le_total [OF assms(1), of i] assms(2)
  show "top_p_mask probs p ! i = replicate (length probs) False ! i"
    by (simp add: top_p_mask_nth)
qed

lemma top_p_kept_unmasked:
  assumes "list_all (\<lambda>x. 0 \<le> x) probs" and "sum_list probs \<le> p"
  shows "top_p_kept probs p = probs_sort probs"
proof (rule nth_equalityI)
  show "length (top_p_kept probs p) = length (probs_sort probs)"
    by (simp add: length_top_p_kept length_probs_sort)
next
  fix i assume "i < length (top_p_kept probs p)"
  then have i: "i < length probs" by (simp add: length_top_p_kept)
  then show "top_p_kept probs p ! i = probs_sort probs ! i"
    by (simp add: top_p_kept_nth top_p_mask_empty [OF assms])
qed

lemma top_p_renorm_unmasked:
  assumes "list_all (\<lambda>x. 0 \<le> x) probs" and "sum_list probs \<le> p"
  shows "top_p_renorm probs p = map (\<lambda>x. x / sum_list probs) (probs_sort probs)"
  by (simp add: top_p_renorm_def top_p_kept_unmasked [OF assms] sum_list_probs_sort)

lemma sample_top_p_unmasked:
  assumes "list_all (\<lambda>x. 0 \<le> x) probs" and "0 < sum_list probs" and "sum_list probs \<le> p"
  shows "sample_top_p draw probs p = gather (probs_idx probs) (draw (top_p_renorm probs p))"
proof -
  note kept = top_p_kept_unmasked [OF assms(1,3)]
  note renorm = top_p_renorm_unmasked [OF assms(1,3)]
  have total: "sum_list (top_p_kept probs p) \<noteq> 0"
    using assms(2) by (simp add: kept sum_list_probs_sort)
  have "0 \<le> x / sum_list probs" if "x \<in> set (probs_sort probs)" for x
    using that assms(1,2) by (simp add: set_probs_sort list_all_iff)
  then have nonneg: "\<not> list_ex (\<lambda>x. x < 0) (top_p_renorm probs p)"
    by (auto simp: renorm list_ex_iff not_less)
  have "sum_list (top_p_renorm probs p) = sum_list (probs_sort probs) / sum_list probs"
    unfolding renorm by (rule sum_list_divide)
  then have one: "sum_list (top_p_renorm probs p) = 1"
    using assms(2) by (simp add: sum_list_probs_sort)
  from total nonneg one show ?thesis
    by (simp add: sample_top_p_def multinomial_def)
qed

subsection \<open>The structure of nucleus sampling\<close>



text \<open>
  Claim C9, as amended. With the sums taken exactly, \<open>p = 1\<close> excludes exactly the sorted
  entries whose cumulative sum before the entry exceeds 1. So for every vector of
  non-negative probabilities whose total is more than 0 and at most 1 the mask is empty,
  zeroing changes nothing, renormalising divides every entry by the total (and changes
  nothing when the total is exactly 1), and the index is drawn over the sorted original
  probabilities so scaled and mapped back to the vocabulary id that carries the drawn
  probability.
\<close>

theorem sample_top_p_one:
  assumes "list_all (\<lambda>x. 0 \<le> x) probs" and "0 < sum_list probs" and "sum_list probs \<le> 1"
  shows "top_p_mask probs 1 = replicate (length probs) False
    \<and> top_p_kept probs 1 = probs_sort probs
    \<and> top_p_renorm probs 1 = map (\<lambda>x. x / sum_list probs) (probs_sort probs)
    \<and> (sum_list probs = 1 \<longrightarrow> top_p_renorm probs 1 = probs_sort probs)
    \<and> mset (probs_idx probs) = mset [0..<length probs]
    \<and> (\<forall>k<length probs. probs ! (probs_idx probs ! k) = probs_sort probs ! k)
    \<and> sample_top_p draw probs 1 =
         (if draw (top_p_renorm probs 1) < length probs
          then Inr (probs_idx probs ! draw (top_p_renorm probs 1)) else Inl IndexError)
    \<and> (\<forall>qs. \<forall>i<length qs.
          top_p_mask qs 1 ! i \<longleftrightarrow> sum_list (take i (probs_sort qs)) > 1)"
proof -
  note mask = top_p_mask_empty [OF assms(1,3)]
  note kept = top_p_kept_unmasked [OF assms(1,3)]
  note renorm = top_p_renorm_unmasked [OF assms(1,3)]
  have noop: "sum_list probs = 1 \<longrightarrow> top_p_renorm probs 1 = probs_sort probs"
    by (simp add: renorm)
  have lookup: "\<forall>k<length probs. probs ! (probs_idx probs ! k) = probs_sort probs ! k"
    by (simp add: probs_idx_lookup)
  have draw: "sample_top_p draw probs 1 =
      (if draw (top_p_renorm probs 1) < length probs
       then Inr (probs_idx probs ! draw (top_p_renorm probs 1)) else Inl IndexError)"
    by (simp add: sample_top_p_unmasked [OF assms] gather_def length_probs_idx)
  have general: "\<forall>qs. \<forall>i<length qs.
      top_p_mask qs 1 ! i \<longleftrightarrow> sum_list (take i (probs_sort qs)) > 1"
    by (simp add: top_p_mask_nth)
  from mask kept renorm noop mset_probs_idx lookup draw general show ?thesis by blast
qed

theorem sample_top_p_one_witness:
  "list_all (\<lambda>x. 0 \<le> x) [1/4, 1/2, 1/4 :: real]
   \<and> (0::real) < sum_list [1/4, 1/2, 1/4] \<and> sum_list [1/4, 1/2, 1/4 :: real] \<le> 1
   \<and> top_p_mask [1/4, 1/2, 1/4] 1 = [False, False, False]
   \<and> top_p_renorm [1/4, 1/2, 1/4] 1 = [1/2, 1/4, 1/4]
   \<and> sample_top_p (\<lambda>w. 2) [1/4, 1/2, 1/4] 1 = Inr 2"
proof -
  have a: "list_all (\<lambda>x. 0 \<le> x) [1/4, 1/2, 1/4 :: real]"
    and b: "(0::real) < sum_list [1/4, 1/2, 1/4]"
    and c: "sum_list [1/4, 1/2, 1/4 :: real] \<le> 1"
    and t: "sum_list [1/4, 1/2, 1/4 :: real] = 1"
    by simp_all
  have s: "probs_sort [1/4, 1/2, 1/4] = [1/2, 1/4, 1/4]"
    by (simp add: probs_sort_def sort_descending_def upt_rec)
  have i: "probs_idx [1/4, 1/2, 1/4] = [1, 0, 2]"
    by (simp add: probs_idx_def sort_descending_def upt_rec)
  from sample_top_p_one [OF a b c, of "\<lambda>w. 2"] have
    m: "top_p_mask [1/4, 1/2, 1/4] 1 = replicate (length [1/4, 1/2, 1/4 :: real]) False"
    and r: "top_p_renorm [1/4, 1/2, 1/4] 1 = probs_sort [1/4, 1/2, 1/4]"
    and d: "sample_top_p (\<lambda>w. 2) [1/4, 1/2, 1/4] 1 =
        (if (2::nat) < length [1/4, 1/2, 1/4 :: real]
         then Inr (probs_idx [1/4, 1/2, 1/4] ! 2) else Inl IndexError)"
    using t by simp_all
  from a b c m r d s i show ?thesis
    by (simp add: numeral_3_eq_3)
qed

text \<open>
  The claim as it was stated fails on what the sampler receives: a softmax output in
  float32 sums to 1 only up to rounding. For the non-negative float32 values
  0.14548714, 0.85451293 and 4.4685986e-08, whose sum exceeds 1 by less than 2e-7, the
  cumulative sum before the smallest entry is 1.00000007, so \<open>p = 1\<close> excludes that entry
  and the renormalised weights differ from the sorted probabilities.
\<close>

theorem sample_top_p_one_counterexample:
  "list_all (\<lambda>x. 0 \<le> x)
     [14548714 / 100000000, 85451293 / 100000000, 44685986 / 1000000000000000 :: real]
   \<and> sum_list [14548714 / 100000000, 85451293 / 100000000, 44685986 / 1000000000000000 :: real]
       < 1 + 2 / 10000000
   \<and> top_p_mask [14548714 / 100000000, 85451293 / 100000000, 44685986 / 1000000000000000] 1
       = [False, False, True]
   \<and> top_p_kept [14548714 / 100000000, 85451293 / 100000000, 44685986 / 1000000000000000] 1
       = [85451293 / 100000000, 14548714 / 100000000, 0]
   \<and> probs_sort [14548714 / 100000000, 85451293 / 100000000, 44685986 / 1000000000000000]
       = [85451293 / 100000000, 14548714 / 100000000, 44685986 / 1000000000000000]"
  by (simp add: top_p_kept_def top_p_mask_def probs_sort_def sort_descending_def cumsum_def
      upt_rec)

subsection \<open>One step of the decode loop\<close>

lemma decode_step_length_tokens:
  "length (tokens (decode_step self temperature top_p logprobs draw text_mask st cur_pos))
     = length (tokens st)"
  by (simp add: decode_step_def Let_def split: sum.split)

lemma decode_step_tokens_other:
  "i \<noteq> cur_pos \<Longrightarrow>
   tokens (decode_step self temperature top_p logprobs draw text_mask st cur_pos) ! i
     = tokens st ! i"
  by (simp add: decode_step_def Let_def split: sum.split)

lemma decode_step_masked:
  "text_mask ! cur_pos \<Longrightarrow>
   tokens (decode_step self temperature top_p logprobs draw text_mask st cur_pos) = tokens st"
  by (simp add: decode_step_def Let_def split: sum.split)

lemma decode_step_forward_calls:
  "forward_calls (decode_step self temperature top_p logprobs draw text_mask st cur_pos)
     = forward_calls st @ [(slice (tokens st) (prev_pos st) cur_pos, prev_pos st)]"
  by (simp add: decode_step_def Let_def split: sum.split)

lemma decode_step_console:
  "console (decode_step self temperature top_p logprobs draw text_mask st cur_pos) = console st"
  by (simp add: decode_step_def Let_def split: sum.split)

lemma decode_step_raised_yielded:
  "raised (decode_step self temperature top_p logprobs draw text_mask st cur_pos) \<noteq> None \<Longrightarrow>
   raised st = None \<Longrightarrow>
   yielded (decode_step self temperature top_p logprobs draw text_mask st cur_pos) = yielded st"
  by (auto simp: decode_step_def Let_def split: sum.splits if_splits)

lemma decode_step_yield:
  assumes "raised (decode_step self temperature top_p logprobs draw text_mask st cur_pos) = None"
  shows "\<exists>r. yielded (decode_step self temperature top_p logprobs draw text_mask st cur_pos)
               = yielded st @ [r]
    \<and> tr_token r = tokens (decode_step self temperature top_p logprobs draw text_mask st cur_pos) ! cur_pos
    \<and> tr_text r = tok_decode self [tr_token r]
    \<and> cur_pos < length (tokens st)
    \<and> (eos_reached (decode_step self temperature top_p logprobs draw text_mask st cur_pos)
         \<longleftrightarrow> eos_reached st \<or> (\<not> text_mask ! cur_pos \<and> tr_token r \<in> set (stop_tokens self)))
    \<and> prev_pos (decode_step self temperature top_p logprobs draw text_mask st cur_pos) = cur_pos"
  using assms
  by (auto simp: decode_step_def Let_def split: sum.splits if_splits)

subsection \<open>The loop\<close>

lemma take_eq_if_nth_eq:
  assumes "length xs = length ys" and "\<And>i. i < k \<Longrightarrow> xs ! i = ys ! i"
  shows "take k xs = take k ys"
proof (rule nth_equalityI)
  show "length (take k xs) = length (take k ys)"
    using assms(1) by simp
next
  fix i assume "i < length (take k xs)"
  then have "i < k" by simp
  then show "take k xs ! i = take k ys ! i"
    using assms(2) by simp
qed

lemma decode_step_take:
  assumes "n \<le> cur_pos"
  shows "take n (tokens (decode_step self temperature top_p logprobs draw text_mask st cur_pos))
           = take n (tokens st)"
proof (rule take_eq_if_nth_eq)
  show "length (tokens (decode_step self temperature top_p logprobs draw text_mask st cur_pos))
          = length (tokens st)"
    by (rule decode_step_length_tokens)
next
  fix i assume "i < n"
  with assms have "i \<noteq> cur_pos" by simp
  then show "tokens (decode_step self temperature top_p logprobs draw text_mask st cur_pos) ! i
               = tokens st ! i"
    by (rule decode_step_tokens_other)
qed

lemma decode_loop_length_tokens:
  "length (tokens (decode_loop self temperature top_p logprobs rng text_mask st ps))
     = length (tokens st)"
  by (induction ps arbitrary: st) (simp_all add: Let_def decode_step_length_tokens)

lemma decode_loop_take:
  assumes "\<forall>p\<in>set ps. n \<le> p"
  shows "take n (tokens (decode_loop self temperature top_p logprobs rng text_mask st ps))
           = take n (tokens st)"
  using assms
proof (induction ps arbitrary: st)
  case Nil
  then show ?case by simp
next
  case (Cons p ps)
  then have "n \<le> p" and rest: "\<forall>q\<in>set ps. n \<le> q" by simp_all
  from decode_step_take [OF \<open>n \<le> p\<close>] Cons.IH [OF rest] show ?case
    by (simp add: Let_def)
qed

lemma decode_loop_console:
  "console (decode_loop self temperature top_p logprobs rng text_mask st ps) = console st"
  by (induction ps arbitrary: st) (simp_all add: Let_def decode_step_console)

text \<open>
  What the loop yields when it starts before any stop token and visits only positions that
  the mask does not mark: the new results number at most the positions; only the last can
  carry a stop token; and when the loop ends without an exception having visited fewer
  positions, the last result carries a stop token, written at the position visited last.
\<close>

lemma decode_loop_yielded:
  assumes "raised st = None" and "\<not> eos_reached st" and "\<forall>p\<in>set ps. \<not> text_mask ! p"
  shows "\<exists>new. yielded (decode_loop self temperature top_p logprobs rng text_mask st ps)
                 = yielded st @ new
    \<and> length new \<le> length ps
    \<and> (\<forall>r\<in>set new. tr_text r = tok_decode self [tr_token r])
    \<and> (\<forall>r\<in>set (butlast new). tr_token r \<notin> set (stop_tokens self))
    \<and> (raised (decode_loop self temperature top_p logprobs rng text_mask st ps) = None
         \<and> length new < length ps
       \<longrightarrow> new \<noteq> [] \<and> tr_token (last new) \<in> set (stop_tokens self)
         \<and> eos_reached (decode_loop self temperature top_p logprobs rng text_mask st ps)
         \<and> ps ! (length new - 1) < length (tokens st)
         \<and> tokens (decode_loop self temperature top_p logprobs rng text_mask st ps)
             ! (ps ! (length new - 1)) = tr_token (last new))"
  using assms
proof (induction ps arbitrary: st)
  case Nil
  then show ?case by simp
next
  case (Cons p ps)
  let ?st' = "decode_step self temperature top_p logprobs (rng p) text_mask st p"
  let ?out = "decode_loop self temperature top_p logprobs rng text_mask st (p # ps)"
  from Cons.prems have unmasked: "\<not> text_mask ! p" and rest: "\<forall>q\<in>set ps. \<not> text_mask ! q"
    by simp_all
  show ?case
  proof (cases "raised ?st' = None")
    case False
    then have "?out = ?st'" by (simp add: Let_def)
    moreover have "yielded ?st' = yielded st"
      using False Cons.prems(1) by (rule decode_step_raised_yielded)
    ultimately show ?thesis using False by simp
  next
    case True
    from decode_step_yield [OF True] obtain r where
      r: "yielded ?st' = yielded st @ [r]"
         "tr_token r = tokens ?st' ! p"
         "tr_text r = tok_decode self [tr_token r]"
         "p < length (tokens st)"
         "eos_reached ?st' \<longleftrightarrow>
            eos_reached st \<or> (\<not> text_mask ! p \<and> tr_token r \<in> set (stop_tokens self))"
      by blast
    from r(5) Cons.prems(2) unmasked
    have eos: "eos_reached ?st' \<longleftrightarrow> tr_token r \<in> set (stop_tokens self)"
      by simp
    show ?thesis
    proof (cases "eos_reached ?st'")
      case stop: True
      then have out: "?out = ?st'" using True by (simp add: Let_def)
      have "yielded ?out = yielded st @ [r]" using out r(1) by simp
      moreover have "length [r] \<le> length (p # ps)" by simp
      moreover have "\<forall>x\<in>set [r]. tr_text x = tok_decode self [tr_token x]"
        using r(3) by simp
      moreover have "\<forall>x\<in>set (butlast [r]). tr_token x \<notin> set (stop_tokens self)" by simp
      moreover have "[r] \<noteq> [] \<and> tr_token (last [r]) \<in> set (stop_tokens self)
          \<and> eos_reached ?out \<and> (p # ps) ! (length [r] - 1) < length (tokens st)
          \<and> tokens ?out ! ((p # ps) ! (length [r] - 1)) = tr_token (last [r])"
        using out stop eos r(2) r(4) by simp
      ultimately show ?thesis by blast
    next
      case continue: False
      then have out: "?out = decode_loop self temperature top_p logprobs rng text_mask ?st' ps"
        using True by (simp add: Let_def)
      from Cons.IH [OF True continue rest] obtain new where
        new: "yielded (decode_loop self temperature top_p logprobs rng text_mask ?st' ps)
                = yielded ?st' @ new"
             "length new \<le> length ps"
             "\<forall>x\<in>set new. tr_text x = tok_decode self [tr_token x]"
             "\<forall>x\<in>set (butlast new). tr_token x \<notin> set (stop_tokens self)"
             "raised (decode_loop self temperature top_p logprobs rng text_mask ?st' ps) = None
                \<and> length new < length ps
              \<longrightarrow> new \<noteq> [] \<and> tr_token (last new) \<in> set (stop_tokens self)
                \<and> eos_reached (decode_loop self temperature top_p logprobs rng text_mask ?st' ps)
                \<and> ps ! (length new - 1) < length (tokens ?st')
                \<and> tokens (decode_loop self temperature top_p logprobs rng text_mask ?st' ps)
                    ! (ps ! (length new - 1)) = tr_token (last new)"
        by blast
      have nostop: "tr_token r \<notin> set (stop_tokens self)"
        using continue eos by simp
      have y: "yielded ?out = yielded st @ (r # new)"
        using out new(1) r(1) by simp
      have len: "length (r # new) \<le> length (p # ps)"
        using new(2) by simp
      have texts: "\<forall>x\<in>set (r # new). tr_text x = tok_decode self [tr_token x]"
        using new(3) r(3) by simp
      have bl: "\<forall>x\<in>set (butlast (r # new)). tr_token x \<notin> set (stop_tokens self)"
        using new(4) nostop by simp
      have fewer: "raised ?out = None \<and> length (r # new) < length (p # ps)
          \<longrightarrow> r # new \<noteq> [] \<and> tr_token (last (r # new)) \<in> set (stop_tokens self)
            \<and> eos_reached ?out \<and> (p # ps) ! (length (r # new) - 1) < length (tokens st)
            \<and> tokens ?out ! ((p # ps) ! (length (r # new) - 1)) = tr_token (last (r # new))"
      proof
        assume a: "raised ?out = None \<and> length (r # new) < length (p # ps)"
        then have "raised (decode_loop self temperature top_p logprobs rng text_mask ?st' ps) = None
            \<and> length new < length ps"
          using out by simp
        with new(5) have c: "new \<noteq> []" "tr_token (last new) \<in> set (stop_tokens self)"
            "eos_reached (decode_loop self temperature top_p logprobs rng text_mask ?st' ps)"
            "ps ! (length new - 1) < length (tokens ?st')"
            "tokens (decode_loop self temperature top_p logprobs rng text_mask ?st' ps)
               ! (ps ! (length new - 1)) = tr_token (last new)"
          by simp_all
        from c(1) have idx: "(p # ps) ! (length (r # new) - 1) = ps ! (length new - 1)"
          by (cases new) simp_all
        from c out idx show "r # new \<noteq> [] \<and> tr_token (last (r # new)) \<in> set (stop_tokens self)
            \<and> eos_reached ?out \<and> (p # ps) ! (length (r # new) - 1) < length (tokens st)
            \<and> tokens ?out ! ((p # ps) ! (length (r # new) - 1)) = tr_token (last (r # new))"
          by (simp add: decode_step_length_tokens)
      qed
      from y len texts bl fewer show ?thesis by blast
    qed
  qed
qed

subsection \<open>The buffer and the run of \<^verbatim>\<open>generate\<close>\<close>

lemma init_tokens_fits:
  assumes "int (length t) \<le> T"
  shows "init_tokens pad T t = Inr (t @ replicate (nat T - length t) pad)"
proof -
  have "length t \<le> nat T" using assms by simp
  then show ?thesis
    using assms by (simp add: init_tokens_def assign_slice_def slice_def Let_def min_def)
qed


lemma init_tokens_unmasked:
  assumes "init_tokens (pad_id self) T prompt = Inr toks"
    and "length prompt \<le> p" and "p < nat T"
  shows "\<not> input_text_mask self toks ! p"
proof -
  have fits: "int (length prompt) \<le> T" using assms(2,3) by simp
  with assms(1) have toks: "toks = prompt @ replicate (nat T - length prompt) (pad_id self)"
    by (simp add: init_tokens_fits)
  have "p < length toks" using toks assms(2,3) by simp
  moreover have "toks ! p = pad_id self"
    using toks assms(2,3) by (simp add: nth_append)
  ultimately show ?thesis by (simp add: input_text_mask_def)
qed

lemma prefill_fields:
  "tokens (prefill self st) = tokens st"
  "yielded (prefill self st) = yielded st"
  "eos_reached (prefill self st) = eos_reached st"
  "console (prefill self st) = console st"
  "forward_calls (prefill self st) = forward_calls st @ [(tokens st, prev_pos st)]"
  "prev_pos (prefill self st) = prev_pos st"
  by (simp_all add: prefill_def Let_def split: sum.split)

text \<open>The state in which the loop starts, once the call is accepted and the buffer exists.\<close>

lemma generate_accepted:
  assumes "1 \<le> max_batch_size self" and "int (length prompt) < max_seq_len self"
    and "init_tokens (pad_id self) (total_len self prompt max_gen_len) prompt = Inr toks"
  shows "\<exists>st2. tokens st2 = toks \<and> yielded st2 = [] \<and> \<not> eos_reached st2 \<and> console st2 = []
    \<and> prev_pos st2 = 0
    \<and> (int (length prompt) \<noteq> total_len self prompt max_gen_len \<longrightarrow> raised st2 = None)
    \<and> (forward_calls st2 =
         (if int (length prompt) = total_len self prompt max_gen_len then [(toks, 0)] else []))
    \<and> generate self prompt max_gen_len temperature top_p logprobs rng =
        (if raised st2 \<noteq> None then st2
         else decode_loop self temperature top_p logprobs rng (input_text_mask self toks) st2
                [length prompt..<nat (total_len self prompt max_gen_len)])"
proof -
  let ?st1 = "initial_state\<lparr>tokens := toks,
      token_logprobs := (if logprobs then Some (replicate (length toks) 0) else None)\<rparr>"
  let ?st2 = "if int (length prompt) = total_len self prompt max_gen_len
      then prefill self ?st1 else ?st1"
  have "tokens ?st2 = toks" "yielded ?st2 = []" "\<not> eos_reached ?st2" "console ?st2 = []"
    "prev_pos ?st2 = 0"
    "int (length prompt) \<noteq> total_len self prompt max_gen_len \<longrightarrow> raised ?st2 = None"
    by (simp_all add: prefill_fields initial_state_def)
  moreover have "forward_calls ?st2 =
      (if int (length prompt) = total_len self prompt max_gen_len then [(toks, 0)] else [])"
    by (simp add: prefill_fields initial_state_def)
  moreover have "generate self prompt max_gen_len temperature top_p logprobs rng =
      (if raised ?st2 \<noteq> None then ?st2
       else decode_loop self temperature top_p logprobs rng (input_text_mask self toks) ?st2
              [length prompt..<nat (total_len self prompt max_gen_len)])"
    using assms by (simp add: generate_def Let_def)
  ultimately show ?thesis by blast
qed

text \<open>When the call is not accepted there is no buffer, no result and no forward pass.\<close>

lemma generate_not_accepted:
  assumes "\<not> (1 \<le> max_batch_size self \<and> int (length prompt) < max_seq_len self
      \<and> (\<exists>toks. init_tokens (pad_id self) (total_len self prompt max_gen_len) prompt = Inr toks))"
  shows "yielded (generate self prompt max_gen_len temperature top_p logprobs rng) = []
    \<and> forward_calls (generate self prompt max_gen_len temperature top_p logprobs rng) = []
    \<and> tokens (generate self prompt max_gen_len temperature top_p logprobs rng) = []
    \<and> (raised (generate self prompt max_gen_len temperature top_p logprobs rng) \<noteq> None
         \<or> nat (total_len self prompt max_gen_len - int (length prompt)) = 0)"
  using assms
  by (auto simp: generate_def Let_def initial_state_def total_len_def split: sum.splits)

lemmas run_defs = generate_def total_len_def init_tokens_def assign_slice_def slice_def Let_def
  initial_state_def input_text_mask_def decode_step_def sample_next_def argmax_def
  update_logprobs_def example_llama_def prefill_def neg_cross_entropy_def

lemma total_len_ge_prompt:
  assumes "int (length prompt) < max_seq_len self" and "0 \<le> max_gen_len"
  shows "int (length prompt) \<le> total_len self prompt max_gen_len"
  using assms by (simp add: total_len_def)

lemma generate_tokens_prefix:
  assumes "1 \<le> max_batch_size self" and "int (length prompt) < max_seq_len self"
    and "0 \<le> max_gen_len"
  shows "take (length prompt) (tokens (generate self prompt max_gen_len temperature top_p logprobs rng))
           = prompt
    \<and> length (tokens (generate self prompt max_gen_len temperature top_p logprobs rng))
        = nat (total_len self prompt max_gen_len)"
proof -
  let ?T = "total_len self prompt max_gen_len"
  let ?toks = "prompt @ replicate (nat ?T - length prompt) (pad_id self)"
  have fits: "int (length prompt) \<le> ?T"
    using assms(2,3) by (rule total_len_ge_prompt)
  then have init: "init_tokens (pad_id self) ?T prompt = Inr ?toks"
    by (rule init_tokens_fits)
  have len: "length ?toks = nat ?T" using fits by simp
  from generate_accepted [OF assms(1,2) init, of temperature top_p logprobs rng]
  obtain st2 where st2: "tokens st2 = ?toks"
    and run: "generate self prompt max_gen_len temperature top_p logprobs rng =
        (if raised st2 \<noteq> None then st2
         else decode_loop self temperature top_p logprobs rng (input_text_mask self ?toks) st2
                [length prompt..<nat ?T])"
    by blast
  show ?thesis
  proof (cases "raised st2 = None")
    case False
    then show ?thesis using run st2 len by simp
  next
    case True
    have "take (length prompt)
        (tokens (decode_loop self temperature top_p logprobs rng (input_text_mask self ?toks) st2
                   [length prompt..<nat ?T])) = take (length prompt) (tokens st2)"
      by (rule decode_loop_take) simp
    then show ?thesis
      using True run st2 len by (simp add: decode_loop_length_tokens)
  qed
qed

subsection \<open>The prompt echo\<close>

text \<open>
  Claim C2, as amended. For a prompt of length \<open>L\<close> that is accepted (the batch
  assertion holds and \<open>L\<close> is less than the context limit) and any \<open>max_gen_len \<ge> 0\<close>,
  the first \<open>L\<close> positions of the buffer in which \<^verbatim>\<open>generate\<close> ends are the prompt,
  whatever the forward pass and the sampler return and also when an exception ends the
  run. At a step whose position the prompt mask marks, the sampled token is discarded: the
  buffer keeps its token and that token is the one yielded.
\<close>

theorem prompt_echo:
  assumes "1 \<le> max_batch_size self" and "int (length prompt) < max_seq_len self"
    and "0 \<le> max_gen_len"
  shows "take (length prompt)
           (tokens (generate self prompt max_gen_len temperature top_p logprobs rng)) = prompt
    \<and> length (tokens (generate self prompt max_gen_len temperature top_p logprobs rng))
        = nat (total_len self prompt max_gen_len)
    \<and> (\<forall>draw text_mask st cur_pos. text_mask ! cur_pos \<longrightarrow>
          tokens (decode_step self temperature top_p logprobs draw text_mask st cur_pos) = tokens st
          \<and> (raised (decode_step self temperature top_p logprobs draw text_mask st cur_pos) = None
               \<longrightarrow> tr_token (last (yielded
                      (decode_step self temperature top_p logprobs draw text_mask st cur_pos)))
                    = tokens st ! cur_pos))"
proof -
  have step: "tokens (decode_step self temperature top_p logprobs draw text_mask st cur_pos) = tokens st
      \<and> (raised (decode_step self temperature top_p logprobs draw text_mask st cur_pos) = None
           \<longrightarrow> tr_token (last (yielded
                  (decode_step self temperature top_p logprobs draw text_mask st cur_pos)))
                = tokens st ! cur_pos)"
    if m: "text_mask ! cur_pos" for draw text_mask st cur_pos
  proof -
    have same: "tokens (decode_step self temperature top_p logprobs draw text_mask st cur_pos)
        = tokens st"
      using m by (rule decode_step_masked)
    have "tr_token (last (yielded
            (decode_step self temperature top_p logprobs draw text_mask st cur_pos)))
          = tokens st ! cur_pos"
      if "raised (decode_step self temperature top_p logprobs draw text_mask st cur_pos) = None"
      using decode_step_yield [OF that] same by auto
    with same show ?thesis by simp
  qed
  from generate_tokens_prefix [OF assms] step show ?thesis by blast
qed

theorem prompt_echo_witness:
  "(1::int) \<le> max_batch_size (example_llama [0, 1, 0])
   \<and> int (length [0, 5 :: int]) < max_seq_len (example_llama [0, 1, 0]) \<and> (0::int) \<le> 2
   \<and> tokens (generate (example_llama [0, 1, 0]) [0, 5] 2 0 (9/10) False (\<lambda>p w. 0)) = [0, 5, 1, 1]
   \<and> take (length [0, 5 :: int])
       (tokens (generate (example_llama [0, 1, 0]) [0, 5] 2 0 (9/10) False (\<lambda>p w. 0))) = [0, 5]"
proof -
  have a: "1 \<le> max_batch_size (example_llama [0, 1, 0])"
    and b: "int (length [0, 5 :: int]) < max_seq_len (example_llama [0, 1, 0])"
    and c: "(0::int) \<le> 2"
    by (simp_all add: example_llama_def)
  have run: "tokens (generate (example_llama [0, 1, 0]) [0, 5] 2 0 (9/10) False (\<lambda>p w. 0))
      = [0, 5, 1, 1]"
    by (simp add: run_defs upt_rec eval_nat_numeral)
  from prompt_echo [OF a b c, of 0 "9/10" False "\<lambda>p w. 0"] a b c run show ?thesis
    by blast
qed

text \<open>
  The claim as it was stated, for any \<open>max_gen_len\<close>, fails for a negative one, which
  \<^verbatim>\<open>text_completion\<close> hands on as it is: for a prompt of one token and
  \<open>max_gen_len = -1\<close>, \<open>total_len\<close> is 0, the one-element tensor is broadcast into the
  empty slice, and \<^verbatim>\<open>generate\<close> ends normally with an empty buffer that does not hold
  the prompt.
\<close>

theorem prompt_echo_counterexample:
  "(1::int) \<le> max_batch_size (example_llama [0, 1, 0])
   \<and> int (length [5 :: int]) < max_seq_len (example_llama [0, 1, 0])
   \<and> resolve_max_gen_len (example_llama [0, 1, 0]) (Some (- 1)) = - 1
   \<and> total_len (example_llama [0, 1, 0]) [5] (- 1) = 0
   \<and> raised (generate (example_llama [0, 1, 0]) [5] (- 1) 0 (9/10) False (\<lambda>p w. 0)) = None
   \<and> tokens (generate (example_llama [0, 1, 0]) [5] (- 1) 0 (9/10) False (\<lambda>p w. 0)) = []
   \<and> take (length [5 :: int])
        (tokens (generate (example_llama [0, 1, 0]) [5] (- 1) 0 (9/10) False (\<lambda>p w. 0)))
      \<noteq> [5]"
  by (simp add: resolve_max_gen_len_def run_defs upt_rec eval_nat_numeral)

subsection \<open>How many results the loop yields\<close>

text \<open>The results of an accepted call, in terms of the loop over \<open>[L..<total_len]\<close>.\<close>

lemma generate_yielded:
  assumes "1 \<le> max_batch_size self" and "int (length prompt) < max_seq_len self"
    and "init_tokens (pad_id self) (total_len self prompt max_gen_len) prompt = Inr toks"
  shows "\<exists>new. yielded (generate self prompt max_gen_len temperature top_p logprobs rng) = new
    \<and> length new \<le> nat (total_len self prompt max_gen_len) - length prompt
    \<and> (\<forall>r\<in>set new. tr_text r = tok_decode self [tr_token r])
    \<and> (\<forall>r\<in>set (butlast new). tr_token r \<notin> set (stop_tokens self))
    \<and> (raised (generate self prompt max_gen_len temperature top_p logprobs rng) = None
         \<and> length new < nat (total_len self prompt max_gen_len) - length prompt
       \<longrightarrow> new \<noteq> [] \<and> tr_token (last new) \<in> set (stop_tokens self)
         \<and> eos_reached (generate self prompt max_gen_len temperature top_p logprobs rng)
         \<and> length prompt + length new - 1 < length toks
         \<and> tokens (generate self prompt max_gen_len temperature top_p logprobs rng)
             ! (length prompt + length new - 1) = tr_token (last new))"
proof -
  let ?T = "total_len self prompt max_gen_len"
  let ?ps = "[length prompt..<nat ?T]"
  let ?out = "generate self prompt max_gen_len temperature top_p logprobs rng"
  from generate_accepted [OF assms, of temperature top_p logprobs rng]
  obtain st2 where st2: "tokens st2 = toks" "yielded st2 = []" "\<not> eos_reached st2"
    and run: "?out =
        (if raised st2 \<noteq> None then st2
         else decode_loop self temperature top_p logprobs rng (input_text_mask self toks) st2 ?ps)"
    by blast
  show ?thesis
  proof (cases "raised st2 = None")
    case False
    then have "?out = st2" using run by simp
    then show ?thesis using st2 False by simp
  next
    case True
    then have out: "?out =
        decode_loop self temperature top_p logprobs rng (input_text_mask self toks) st2 ?ps"
      using run by simp
    have unmasked: "\<forall>p\<in>set ?ps. \<not> input_text_mask self toks ! p"
      using init_tokens_unmasked [OF assms(3)] by simp
    from decode_loop_yielded [OF True st2(3) unmasked, of self temperature top_p logprobs rng]
    obtain new where
      new: "yielded ?out = yielded st2 @ new"
           "length new \<le> length ?ps"
           "\<forall>r\<in>set new. tr_text r = tok_decode self [tr_token r]"
           "\<forall>r\<in>set (butlast new). tr_token r \<notin> set (stop_tokens self)"
           "raised ?out = None \<and> length new < length ?ps
            \<longrightarrow> new \<noteq> [] \<and> tr_token (last new) \<in> set (stop_tokens self)
              \<and> eos_reached ?out
              \<and> ?ps ! (length new - 1) < length (tokens st2)
              \<and> tokens ?out ! (?ps ! (length new - 1)) = tr_token (last new)"
      unfolding out by blast
    have y: "yielded ?out = new" using new(1) st2(2) by simp
    have len: "length new \<le> nat ?T - length prompt" using new(2) by simp
    have fewer: "raised ?out = None \<and> length new < nat ?T - length prompt
        \<longrightarrow> new \<noteq> [] \<and> tr_token (last new) \<in> set (stop_tokens self)
          \<and> eos_reached ?out
          \<and> length prompt + length new - 1 < length toks
          \<and> tokens ?out ! (length prompt + length new - 1) = tr_token (last new)"
    proof
      assume a: "raised ?out = None \<and> length new < nat ?T - length prompt"
      with new(5) have c: "new \<noteq> []" "tr_token (last new) \<in> set (stop_tokens self)"
          "eos_reached ?out" "?ps ! (length new - 1) < length (tokens st2)"
          "tokens ?out ! (?ps ! (length new - 1)) = tr_token (last new)"
        by simp_all
      have "length new - 1 < nat ?T - length prompt" using a by linarith
      then have "?ps ! (length new - 1) = length prompt + (length new - 1)"
        by simp
      also have "\<dots> = length prompt + length new - 1"
        using c(1) by (cases new) simp_all
      finally have idx: "?ps ! (length new - 1) = length prompt + length new - 1" .
      from c idx st2(1)
      show "new \<noteq> [] \<and> tr_token (last new) \<in> set (stop_tokens self)
          \<and> eos_reached ?out
          \<and> length prompt + length new - 1 < length toks
          \<and> tokens ?out ! (length prompt + length new - 1) = tr_token (last new)"
        by simp
    qed
    from y len new(3) new(4) fewer show ?thesis by blast
  qed
qed



subsection \<open>Where the loop writes\<close>

lemma decode_step_raised_eos:
  "raised (decode_step self temperature top_p logprobs draw text_mask st cur_pos) \<noteq> None \<Longrightarrow>
   raised st = None \<Longrightarrow>
   eos_reached (decode_step self temperature top_p logprobs draw text_mask st cur_pos)
     = eos_reached st"
  by (auto simp: decode_step_def Let_def split: sum.splits if_splits)

lemma decode_step_tokens_update:
  assumes "raised (decode_step self temperature top_p logprobs draw text_mask st cur_pos) = None"
  shows "\<exists>r. yielded (decode_step self temperature top_p logprobs draw text_mask st cur_pos)
               = yielded st @ [r]
    \<and> cur_pos < length (tokens st)
    \<and> tokens (decode_step self temperature top_p logprobs draw text_mask st cur_pos)
        = (tokens st)[cur_pos := tr_token r]"
proof -
  let ?st' = "decode_step self temperature top_p logprobs draw text_mask st cur_pos"
  from decode_step_yield [OF assms] obtain r where
    r: "yielded ?st' = yielded st @ [r]" "tr_token r = tokens ?st' ! cur_pos"
       "cur_pos < length (tokens st)"
    by blast
  have "tokens ?st' = (tokens st)[cur_pos := tr_token r]"
  proof (rule nth_equalityI)
    show "length (tokens ?st') = length ((tokens st)[cur_pos := tr_token r])"
      by (simp add: decode_step_length_tokens)
  next
    fix i assume "i < length (tokens ?st')"
    then have i: "i < length (tokens st)" by (simp add: decode_step_length_tokens)
    show "tokens ?st' ! i = (tokens st)[cur_pos := tr_token r] ! i"
    proof (cases "i = cur_pos")
      case True
      then show ?thesis using r(2) i by simp
    next
      case False
      then show ?thesis by (simp add: decode_step_tokens_other)
    qed
  qed
  with r(1) r(3) show ?thesis by blast
qed

text \<open>
  A run of the loop over the positions \<open>a, a + 1, \<dots>\<close> that ends without an exception
  leaves the buffer as it was, but for the yielded tokens, written in order from \<open>a\<close> on.
\<close>

lemma decode_loop_layout:
  assumes "raised st = None" and "b \<le> length (tokens st)"
    and "raised (decode_loop self temperature top_p logprobs rng text_mask st [a..<b]) = None"
  shows "\<exists>new. yielded (decode_loop self temperature top_p logprobs rng text_mask st [a..<b])
                 = yielded st @ new
    \<and> tokens (decode_loop self temperature top_p logprobs rng text_mask st [a..<b])
        = take a (tokens st) @ map tr_token new @ drop (a + length new) (tokens st)"
  using assms
proof (induction "b - a" arbitrary: a st)
  case 0
  then have e: "[a..<b] = []" by simp
  show ?case by (simp add: e)
next
  case (Suc n)
  then have ab: "a < b" by simp
  then have ps: "[a..<b] = a # [Suc a..<b]" by (rule upt_conv_Cons)
  let ?st' = "decode_step self temperature top_p logprobs (rng a) text_mask st a"
  let ?out = "decode_loop self temperature top_p logprobs rng text_mask st [a..<b]"
  have ok: "raised ?st' = None"
  proof (rule ccontr)
    assume "raised ?st' \<noteq> None"
    then have "?out = ?st'" by (simp add: ps Let_def)
    with Suc.prems(3) \<open>raised ?st' \<noteq> None\<close> show False by simp
  qed
  from decode_step_tokens_update [OF ok] obtain r where
    r: "yielded ?st' = yielded st @ [r]" "a < length (tokens st)"
       "tokens ?st' = (tokens st)[a := tr_token r]"
    by blast
  show ?case
  proof (cases "eos_reached ?st'")
    case True
    then have "?out = ?st'" using ok by (simp add: ps Let_def)
    moreover have "(tokens st)[a := tr_token r]
        = take a (tokens st) @ map tr_token [r] @ drop (a + length [r]) (tokens st)"
      using r(2) by (simp add: upd_conv_take_nth_drop)
    ultimately show ?thesis using r(1) r(3) by auto
  next
    case False
    then have out: "?out = decode_loop self temperature top_p logprobs rng text_mask ?st'
        [Suc a..<b]"
      using ok by (simp add: ps Let_def)
    have n: "n = b - Suc a" using Suc.hyps(2) by simp
    have len: "b \<le> length (tokens ?st')"
      using Suc.prems(2) by (simp add: decode_step_length_tokens)
    have fin: "raised (decode_loop self temperature top_p logprobs rng text_mask ?st'
        [Suc a..<b]) = None"
      using Suc.prems(3) out by simp
    from Suc.hyps(1) [OF n ok len fin] obtain new where
      new: "yielded (decode_loop self temperature top_p logprobs rng text_mask ?st' [Suc a..<b])
              = yielded ?st' @ new"
           "tokens (decode_loop self temperature top_p logprobs rng text_mask ?st' [Suc a..<b])
              = take (Suc a) (tokens ?st') @ map tr_token new
                  @ drop (Suc a + length new) (tokens ?st')"
      by blast
    have front: "take (Suc a) (tokens ?st') = take a (tokens st) @ [tr_token r]"
      using r(2) by (simp add: r(3) take_Suc_conv_app_nth)
    have rear: "drop (Suc a + length new) (tokens ?st') = drop (Suc a + length new) (tokens st)"
      by (simp add: r(3))
    have "yielded ?out = yielded st @ (r # new)"
      using out new(1) r(1) by simp
    moreover have "tokens ?out = take a (tokens st) @ map tr_token (r # new)
        @ drop (a + length (r # new)) (tokens st)"
      using out new(2) front rear by simp
    ultimately show ?thesis by blast
  qed
qed

text \<open>
  When the loop starts before any stop token and visits only positions that the mask does
  not mark, \<^verbatim>\<open>eos_reached\<close> at its end means that the last result carries a stop token
  and that no exception was raised.
\<close>

lemma decode_loop_eos:
  assumes "raised st = None" and "\<not> eos_reached st" and "\<forall>p\<in>set ps. \<not> text_mask ! p"
    and "eos_reached (decode_loop self temperature top_p logprobs rng text_mask st ps)"
  shows "raised (decode_loop self temperature top_p logprobs rng text_mask st ps) = None
    \<and> (\<exists>new. yielded (decode_loop self temperature top_p logprobs rng text_mask st ps)
                = yielded st @ new
          \<and> new \<noteq> [] \<and> tr_token (last new) \<in> set (stop_tokens self))"
  using assms
proof (induction ps arbitrary: st)
  case Nil
  then show ?case by simp
next
  case (Cons p ps)
  let ?st' = "decode_step self temperature top_p logprobs (rng p) text_mask st p"
  let ?out = "decode_loop self temperature top_p logprobs rng text_mask st (p # ps)"
  from Cons.prems have unmasked: "\<not> text_mask ! p" and rest: "\<forall>q\<in>set ps. \<not> text_mask ! q"
    by simp_all
  have ok: "raised ?st' = None"
  proof (rule ccontr)
    assume bad: "raised ?st' \<noteq> None"
    then have "?out = ?st'" by (simp add: Let_def)
    moreover have "eos_reached ?st' = eos_reached st"
      using bad Cons.prems(1) by (rule decode_step_raised_eos)
    ultimately show False using Cons.prems(2,4) by simp
  qed
  from decode_step_yield [OF ok] obtain r where
    r: "yielded ?st' = yielded st @ [r]"
       "eos_reached ?st' \<longleftrightarrow>
          eos_reached st \<or> (\<not> text_mask ! p \<and> tr_token r \<in> set (stop_tokens self))"
    by blast
  show ?case
  proof (cases "eos_reached ?st'")
    case True
    then have "?out = ?st'" using ok by (simp add: Let_def)
    moreover have "tr_token (last [r]) \<in> set (stop_tokens self)"
      using True r(2) Cons.prems(2) by simp
    ultimately show ?thesis using ok r(1) by auto
  next
    case False
    then have out: "?out = decode_loop self temperature top_p logprobs rng text_mask ?st' ps"
      using ok by (simp add: Let_def)
    have "eos_reached (decode_loop self temperature top_p logprobs rng text_mask ?st' ps)"
      using Cons.prems(4) out by simp
    from Cons.IH [OF ok False rest this] obtain new where
      new: "raised (decode_loop self temperature top_p logprobs rng text_mask ?st' ps) = None"
           "yielded (decode_loop self temperature top_p logprobs rng text_mask ?st' ps)
              = yielded ?st' @ new"
           "new \<noteq> []" "tr_token (last new) \<in> set (stop_tokens self)"
      by blast
    have "yielded ?out = yielded st @ (r # new)"
      using out new(2) r(1) by simp
    moreover have "r # new \<noteq> []" by simp
    moreover have "tr_token (last (r # new)) \<in> set (stop_tokens self)"
      using new(3,4) by simp
    moreover have "raised ?out = None" using out new(1) by simp
    ultimately show ?thesis by blast
  qed
qed

lemma generate_layout:
  assumes "1 \<le> max_batch_size self" and "int (length prompt) < max_seq_len self"
    and "0 \<le> max_gen_len"
  shows "(raised (generate self prompt max_gen_len temperature top_p logprobs rng) = None
      \<longrightarrow> tokens (generate self prompt max_gen_len temperature top_p logprobs rng)
          = prompt
            @ map tr_token (yielded (generate self prompt max_gen_len temperature top_p logprobs rng))
            @ replicate (nat (total_len self prompt max_gen_len) - length prompt
                - length (yielded (generate self prompt max_gen_len temperature top_p logprobs rng)))
                (pad_id self))
    \<and> (eos_reached (generate self prompt max_gen_len temperature top_p logprobs rng)
      \<longrightarrow> raised (generate self prompt max_gen_len temperature top_p logprobs rng) = None
        \<and> yielded (generate self prompt max_gen_len temperature top_p logprobs rng) \<noteq> []
        \<and> tr_token (last (yielded (generate self prompt max_gen_len temperature top_p logprobs rng)))
            \<in> set (stop_tokens self))"
proof -
  let ?T = "total_len self prompt max_gen_len"
  let ?L = "length prompt"
  let ?toks = "prompt @ replicate (nat ?T - ?L) (pad_id self)"
  let ?out = "generate self prompt max_gen_len temperature top_p logprobs rng"
  have fits: "int ?L \<le> ?T"
    using assms(2,3) by (rule total_len_ge_prompt)
  then have init: "init_tokens (pad_id self) ?T prompt = Inr ?toks"
    by (rule init_tokens_fits)
  have len: "length ?toks = nat ?T" using fits by simp
  from generate_accepted [OF assms(1,2) init, of temperature top_p logprobs rng]
  obtain st2 where st2: "tokens st2 = ?toks" "yielded st2 = []" "\<not> eos_reached st2"
    and run: "?out =
        (if raised st2 \<noteq> None then st2
         else decode_loop self temperature top_p logprobs rng (input_text_mask self ?toks) st2
                [?L..<nat ?T])"
    by blast
  show ?thesis
  proof (cases "raised st2 = None")
    case False
    then have "?out = st2" using run by simp
    then show ?thesis using False st2 by simp
  next
    case True
    then have out: "?out =
        decode_loop self temperature top_p logprobs rng (input_text_mask self ?toks) st2
          [?L..<nat ?T]"
      using run by simp
    have layout: "tokens ?out
        = prompt @ map tr_token (yielded ?out)
            @ replicate (nat ?T - ?L - length (yielded ?out)) (pad_id self)"
      if fin: "raised ?out = None"
    proof -
      have b: "nat ?T \<le> length (tokens st2)" using st2(1) len by simp
      from decode_loop_layout [OF True b, of self temperature top_p logprobs rng
          "input_text_mask self ?toks" ?L] fin
      obtain new where new: "yielded ?out = yielded st2 @ new"
          "tokens ?out = take ?L (tokens st2) @ map tr_token new
             @ drop (?L + length new) (tokens st2)"
        unfolding out by blast
      have y: "yielded ?out = new" using new(1) st2(2) by simp
      have "drop (?L + length new) ?toks = replicate (nat ?T - ?L - length new) (pad_id self)"
        by simp
      then show ?thesis using new(2) y st2(1) by simp
    qed
    have unmasked: "\<forall>p\<in>set [?L..<nat ?T]. \<not> input_text_mask self ?toks ! p"
      using init_tokens_unmasked [OF init] by simp
    have stop: "raised ?out = None \<and> yielded ?out \<noteq> []
        \<and> tr_token (last (yielded ?out)) \<in> set (stop_tokens self)"
      if e: "eos_reached ?out"
    proof -
      from decode_loop_eos [OF True st2(3) unmasked, of self temperature top_p logprobs rng] e
      show ?thesis unfolding out using st2(2) by auto
    qed
    from layout stop show ?thesis by blast
  qed
qed

subsection \<open>A prompt that contains the pad id\<close>

text \<open>
  Claim C10, as amended. The prompt mask is \<^verbatim>\<open>tokens != pad_id\<close> over the initial buffer,
  so for an accepted prompt and \<open>max_gen_len \<ge> 0\<close> a prompt position \<open>i\<close> that holds the
  pad id is not marked as prompt. The loop, however, starts at \<open>cur_pos = prompt_len\<close> (one
  sequence per call), so tokens are written only from there on: when \<^verbatim>\<open>generate\<close> ends
  without an exception the buffer is the prompt, then the yielded tokens in their order,
  then untouched padding. So the buffer keeps the prompt token at \<open>i\<close> and the prompt echo
  holds for every such prompt, also for one that contains the pad id; and
  \<^verbatim>\<open>eos_reached\<close> is set only when the last yielded token, which lies past the prompt, is
  a stop token.
\<close>

theorem pad_in_prompt_echo:
  assumes "1 \<le> max_batch_size self" and "int (length prompt) < max_seq_len self"
    and "0 \<le> max_gen_len" and "i < length prompt" and "prompt ! i = pad_id self"
  shows "init_tokens (pad_id self) (total_len self prompt max_gen_len) prompt
           = Inr (prompt @ replicate (nat (total_len self prompt max_gen_len) - length prompt)
                             (pad_id self))
    \<and> \<not> input_text_mask self
           (prompt @ replicate (nat (total_len self prompt max_gen_len) - length prompt)
                       (pad_id self)) ! i
    \<and> tokens (generate self prompt max_gen_len temperature top_p logprobs rng) ! i = prompt ! i
    \<and> take (length prompt)
         (tokens (generate self prompt max_gen_len temperature top_p logprobs rng)) = prompt
    \<and> (raised (generate self prompt max_gen_len temperature top_p logprobs rng) = None
        \<longrightarrow> tokens (generate self prompt max_gen_len temperature top_p logprobs rng)
            = prompt
              @ map tr_token (yielded (generate self prompt max_gen_len temperature top_p logprobs rng))
              @ replicate (nat (total_len self prompt max_gen_len) - length prompt
                  - length (yielded (generate self prompt max_gen_len temperature top_p logprobs rng)))
                  (pad_id self))
    \<and> (eos_reached (generate self prompt max_gen_len temperature top_p logprobs rng)
        \<longrightarrow> yielded (generate self prompt max_gen_len temperature top_p logprobs rng) \<noteq> []
          \<and> tr_token (last (yielded (generate self prompt max_gen_len temperature top_p logprobs rng)))
              \<in> set (stop_tokens self)
          \<and> tokens (generate self prompt max_gen_len temperature top_p logprobs rng)
              ! (length prompt
                   + length (yielded (generate self prompt max_gen_len temperature top_p logprobs rng))
                   - 1)
             = tr_token (last (yielded (generate self prompt max_gen_len temperature top_p logprobs rng))))"
proof -
  let ?T = "total_len self prompt max_gen_len"
  let ?out = "generate self prompt max_gen_len temperature top_p logprobs rng"
  have init: "init_tokens (pad_id self) ?T prompt
      = Inr (prompt @ replicate (nat ?T - length prompt) (pad_id self))"
    using total_len_ge_prompt [OF assms(2,3)] by (rule init_tokens_fits)
  have unmarked: "\<not> input_text_mask self
      (prompt @ replicate (nat ?T - length prompt) (pad_id self)) ! i"
    using assms(4,5) by (simp add: input_text_mask_def nth_append)
  have echo: "take (length prompt) (tokens ?out) = prompt"
    using generate_tokens_prefix [OF assms(1,2,3)] by simp
  have "tokens ?out ! i = take (length prompt) (tokens ?out) ! i"
    using assms(4) by simp
  then have kept: "tokens ?out ! i = prompt ! i"
    using echo by simp
  note lay = generate_layout [OF assms(1,2,3), of temperature top_p logprobs rng]
  then have layout: "raised ?out = None
      \<longrightarrow> tokens ?out = prompt @ map tr_token (yielded ?out)
            @ replicate (nat ?T - length prompt - length (yielded ?out)) (pad_id self)"
    by blast
  have stop: "yielded ?out \<noteq> [] \<and> tr_token (last (yielded ?out)) \<in> set (stop_tokens self)
      \<and> tokens ?out ! (length prompt + length (yielded ?out) - 1)
          = tr_token (last (yielded ?out))"
    if e: "eos_reached ?out"
  proof -
    from lay e have c: "raised ?out = None" "yielded ?out \<noteq> []"
        "tr_token (last (yielded ?out)) \<in> set (stop_tokens self)"
      by blast+
    from layout c(1) have t: "tokens ?out = prompt @ map tr_token (yielded ?out)
        @ replicate (nat ?T - length prompt - length (yielded ?out)) (pad_id self)"
      by blast
    have k: "length (yielded ?out) - 1 < length (yielded ?out)"
      using c(2) by simp
    have "(prompt @ map tr_token (yielded ?out)
          @ replicate (nat ?T - length prompt - length (yielded ?out)) (pad_id self))
        ! (length prompt + (length (yielded ?out) - 1))
        = (map tr_token (yielded ?out)
          @ replicate (nat ?T - length prompt - length (yielded ?out)) (pad_id self))
        ! (length (yielded ?out) - 1)"
      by (rule nth_append_length_plus)
    also have "\<dots> = map tr_token (yielded ?out) ! (length (yielded ?out) - 1)"
      using k by (simp only: nth_append length_map if_True)
    also have "\<dots> = tr_token (yielded ?out ! (length (yielded ?out) - 1))"
      using k by (rule nth_map)
    finally have at: "(prompt @ map tr_token (yielded ?out)
          @ replicate (nat ?T - length prompt - length (yielded ?out)) (pad_id self))
        ! (length prompt + (length (yielded ?out) - 1))
        = tr_token (yielded ?out ! (length (yielded ?out) - 1))" .
    have pos: "length prompt + (length (yielded ?out) - 1)
        = length prompt + length (yielded ?out) - 1"
      using c(2) by (cases "yielded ?out") simp_all
    have "tokens ?out ! (length prompt + length (yielded ?out) - 1)
        = tokens ?out ! (length prompt + (length (yielded ?out) - 1))"
      by (simp only: pos)
    also have "\<dots> = (prompt @ map tr_token (yielded ?out)
          @ replicate (nat ?T - length prompt - length (yielded ?out)) (pad_id self))
        ! (length prompt + (length (yielded ?out) - 1))"
      using t by (rule arg_cong)
    also note at
    also have "tr_token (yielded ?out ! (length (yielded ?out) - 1))
        = tr_token (last (yielded ?out))"
      using c(2) by (simp add: last_conv_nth)
    finally have "tokens ?out ! (length prompt + length (yielded ?out) - 1)
        = tr_token (last (yielded ?out))" .
    with c show ?thesis by simp
  qed
  from init unmarked kept echo layout stop show ?thesis by blast
qed

theorem pad_in_prompt_echo_witness:
  "(1::int) \<le> max_batch_size (example_llama [0, 1, 3])
   \<and> int (length [0, - 1, 5 :: int]) < max_seq_len (example_llama [0, 1, 3])
   \<and> (0::int) \<le> 2 \<and> (1::nat) < length [0, - 1, 5 :: int]
   \<and> [0, - 1, 5] ! 1 = pad_id (example_llama [0, 1, 3])
   \<and> raised (generate (example_llama [0, 1, 3]) [0, - 1, 5] 2 0 (9/10) False (\<lambda>p w. 0)) = None
   \<and> eos_reached (generate (example_llama [0, 1, 3]) [0, - 1, 5] 2 0 (9/10) False (\<lambda>p w. 0))
   \<and> tokens (generate (example_llama [0, 1, 3]) [0, - 1, 5] 2 0 (9/10) False (\<lambda>p w. 0)) ! 1 = - 1
   \<and> take (length [0, - 1, 5 :: int])
       (tokens (generate (example_llama [0, 1, 3]) [0, - 1, 5] 2 0 (9/10) False (\<lambda>p w. 0)))
     = [0, - 1, 5]
   \<and> tokens (generate (example_llama [0, 1, 3]) [0, - 1, 5] 2 0 (9/10) False (\<lambda>p w. 0))
     = [0, - 1, 5, 2, - 1]
   \<and> tr_token (last (yielded
        (generate (example_llama [0, 1, 3]) [0, - 1, 5] 2 0 (9/10) False (\<lambda>p w. 0))))
     \<in> set (stop_tokens (example_llama [0, 1, 3]))"
proof -
  have a: "1 \<le> max_batch_size (example_llama [0, 1, 3])"
    and b: "int (length [0, - 1, 5 :: int]) < max_seq_len (example_llama [0, 1, 3])"
    and c: "(0::int) \<le> 2"
    and d: "(1::nat) < length [0, - 1, 5 :: int]"
    and e: "[0, - 1, 5] ! 1 = pad_id (example_llama [0, 1, 3])"
    by (simp_all add: example_llama_def)
  have r: "raised (generate (example_llama [0, 1, 3]) [0, - 1, 5] 2 0 (9/10) False (\<lambda>p w. 0))
      = None"
    and s: "eos_reached (generate (example_llama [0, 1, 3]) [0, - 1, 5] 2 0 (9/10) False
      (\<lambda>p w. 0))"
    and y: "map tr_token (yielded (generate (example_llama [0, 1, 3]) [0, - 1, 5] 2 0 (9/10)
      False (\<lambda>p w. 0))) = [2]"
    and t: "nat (total_len (example_llama [0, 1, 3]) [0, - 1, 5] 2) = 5"
    and p: "pad_id (example_llama [0, 1, 3]) = - 1"
    by (simp_all add: run_defs upt_rec eval_nat_numeral)
  have n: "length (yielded (generate (example_llama [0, 1, 3]) [0, - 1, 5] 2 0 (9/10)
      False (\<lambda>p w. 0))) = 1"
    using arg_cong [OF y, of length] by simp
  from pad_in_prompt_echo [OF a b c d e, of 0 "9/10" False "\<lambda>p w. 0"] a b c d e r s y t p n
  show ?thesis by (simp add: eval_nat_numeral)
qed

text \<open>
  The claim as it was stated fails: with the pad id at position 1 of the prompt and a model
  that always samples token 1, position 1 of the buffer still holds the pad id at the end,
  and the first three positions are the prompt.
\<close>

theorem pad_in_prompt_counterexample:
  "[0, - 1, 5] ! 1 = pad_id (example_llama [0, 1, 0])
   \<and> \<not> input_text_mask (example_llama [0, 1, 0]) [0, - 1, 5, - 1, - 1] ! 1
   \<and> map tr_token
       (yielded (generate (example_llama [0, 1, 0]) [0, - 1, 5] 2 0 (9/10) False (\<lambda>p w. 0)))
     = [1, 1]
   \<and> tokens (generate (example_llama [0, 1, 0]) [0, - 1, 5] 2 0 (9/10) False (\<lambda>p w. 0))
     = [0, - 1, 5, 1, 1]
   \<and> forward_calls (generate (example_llama [0, 1, 0]) [0, - 1, 5] 2 0 (9/10) False (\<lambda>p w. 0))
     = [([0, - 1, 5], 0), ([1], 3)]"
  by (simp add: run_defs upt_rec eval_nat_numeral)

subsection \<open>A prompt that is too long\<close>

lemma generate_too_long:
  assumes "1 \<le> max_batch_size self" and "max_seq_len self \<le> int (length prompt)"
  shows "generate self prompt max_gen_len temperature top_p logprobs rng
    = initial_state\<lparr>console := [OutOfTokenBudget (length prompt) (max_seq_len self)]\<rparr>"
  using assms by (simp add: generate_def Let_def)

text \<open>
  Claim C4, as amended. For a prompt whose token length is at least the context limit,
  \<^verbatim>\<open>generate\<close> runs no forward pass and yields no TokenResult; it prints one line and
  ends normally, raising nothing. So \<^verbatim>\<open>text_completion\<close> returns a well-formed empty
  prediction, the decoding of no tokens: the caller gets no failure.
\<close>

theorem prompt_too_long:
  assumes "1 \<le> max_batch_size self" and "max_seq_len self \<le> int (length prompt)"
  shows "forward_calls (generate self prompt max_gen_len temperature top_p logprobs rng) = []
    \<and> yielded (generate self prompt max_gen_len temperature top_p logprobs rng) = []
    \<and> raised (generate self prompt max_gen_len temperature top_p logprobs rng) = None
    \<and> console (generate self prompt max_gen_len temperature top_p logprobs rng)
        = [OutOfTokenBudget (length prompt) (max_seq_len self)]
    \<and> (tok_encode self s True False = prompt \<longrightarrow>
         text_completion self s temperature top_p opt_max_gen_len logprobs rng
           = Inr \<lparr>cp_generation = tok_decode self [],
                  cp_decoded_tokens = (if logprobs then Some [] else None),
                  cp_logprobs = (if logprobs then Some [] else None)\<rparr>)"
proof -
  note g = generate_too_long [OF assms]
  have "text_completion self s temperature top_p opt_max_gen_len logprobs rng
      = Inr \<lparr>cp_generation = tok_decode self [],
             cp_decoded_tokens = (if logprobs then Some [] else None),
             cp_logprobs = (if logprobs then Some [] else None)\<rparr>"
    if "tok_encode self s True False = prompt"
    using that by (simp add: text_completion_def Let_def g initial_state_def)
  then show ?thesis by (simp add: g initial_state_def)
qed

theorem prompt_too_long_witness:
  "(1::int) \<le> max_batch_size (example_llama [0, 1, 0])
   \<and> max_seq_len (example_llama [0, 1, 0]) \<le> int (length [0, 1, 1, 1, 1, 1, 1, 1, 1 :: int])
   \<and> tok_encode (example_llama [0, 1, 0]) ''aaaaaaaa'' True False = [0, 1, 1, 1, 1, 1, 1, 1, 1]
   \<and> forward_calls (generate (example_llama [0, 1, 0]) [0, 1, 1, 1, 1, 1, 1, 1, 1] 7 0 (9/10) False
        (\<lambda>p w. 0)) = []
   \<and> text_completion (example_llama [0, 1, 0]) ''aaaaaaaa'' 0 (9/10) None False (\<lambda>p w. 0)
     = Inr \<lparr>cp_generation = [], cp_decoded_tokens = None, cp_logprobs = None\<rparr>"
proof -
  have a: "1 \<le> max_batch_size (example_llama [0, 1, 0])"
    and b: "max_seq_len (example_llama [0, 1, 0]) \<le> int (length [0, 1, 1, 1, 1, 1, 1, 1, 1 :: int])"
    and c: "tok_encode (example_llama [0, 1, 0]) ''aaaaaaaa'' True False
              = [0, 1, 1, 1, 1, 1, 1, 1, 1]"
    and d: "tok_decode (example_llama [0, 1, 0]) [] = []"
    by (simp_all add: example_llama_def)
  from prompt_too_long [OF a b, of 7 0 "9/10" False "\<lambda>p w. 0" "''aaaaaaaa''" None] a b c d
  show ?thesis by simp
qed

text \<open>
  The claim as it was stated fails: for a prompt of nine tokens and a context of eight,
  \<^verbatim>\<open>text_completion\<close> returns a prediction and no failure, and what the generator gives
  its caller (no result, no exception) is what it gives for a prompt that fills its budget.
\<close>

theorem prompt_too_long_counterexample:
  "max_seq_len (example_llama [0, 1, 0])
     \<le> int (length (tok_encode (example_llama [0, 1, 0]) ''aaaaaaaa'' True False))
   \<and> text_completion (example_llama [0, 1, 0]) ''aaaaaaaa'' 0 (9/10) None False (\<lambda>p w. 0)
     = Inr \<lparr>cp_generation = [], cp_decoded_tokens = None, cp_logprobs = None\<rparr>
   \<and> yielded (generate (example_llama [0, 1, 0]) [0, 1, 1, 1, 1, 1, 1, 1, 1] 7 0 (9/10) False
        (\<lambda>p w. 0)) = []
   \<and> raised (generate (example_llama [0, 1, 0]) [0, 1, 1, 1, 1, 1, 1, 1, 1] 7 0 (9/10) False
        (\<lambda>p w. 0)) = None
   \<and> yielded (generate (example_llama [0, 1, 0]) [0, 1] 0 0 (9/10) False (\<lambda>p w. 0)) = []
   \<and> raised (generate (example_llama [0, 1, 0]) [0, 1] 0 0 (9/10) False (\<lambda>p w. 0)) = None"
  by (simp add: text_completion_def resolve_max_gen_len_def run_defs upt_rec eval_nat_numeral)

subsection \<open>A prompt that fills the budget\<close>

text \<open>
  Claim C5. When the prompt fills \<open>total_len\<close>, \<^verbatim>\<open>generate\<close> calls the forward pass
  exactly once, over the whole prompt from offset 0, and yields no TokenResult. The
  log-probabilities over the prompt are computed into the local \<^verbatim>\<open>token_logprobs\<close>, and
  since nothing is yielded they never reach the caller.
\<close>

theorem full_prompt_single_forward:
  assumes "1 \<le> max_batch_size self" and "int (length prompt) < max_seq_len self"
    and "total_len self prompt max_gen_len = int (length prompt)"
  shows "forward_calls (generate self prompt max_gen_len temperature top_p logprobs rng)
           = [(prompt, 0)]
    \<and> yielded (generate self prompt max_gen_len temperature top_p logprobs rng) = []
    \<and> tokens (generate self prompt max_gen_len temperature top_p logprobs rng) = prompt
    \<and> (raised (generate self prompt max_gen_len temperature top_p logprobs rng) = None
         \<longrightarrow> (\<exists>logits lp. forward self prompt 0 = Inr logits
               \<and> neg_cross_entropy (pad_id self) logits prompt = Inr lp
               \<and> token_logprobs (generate self prompt max_gen_len temperature top_p logprobs rng)
                   = Some lp))"
proof -
  have init: "init_tokens (pad_id self) (int (length prompt)) prompt = Inr prompt"
    using init_tokens_fits [of prompt "int (length prompt)" "pad_id self"] by simp
  have run: "generate self prompt max_gen_len temperature top_p logprobs rng
      = prefill self (initial_state\<lparr>tokens := prompt,
          token_logprobs := (if logprobs then Some (replicate (length prompt) 0) else None)\<rparr>)"
    using assms by (simp add: generate_def Let_def init)
  show ?thesis
    unfolding run
    by (auto simp: prefill_def Let_def initial_state_def split: sum.split)
qed

theorem full_prompt_single_forward_witness:
  "(1::int) \<le> max_batch_size (example_llama [0, 1, 0])
   \<and> int (length [0, 1 :: int]) < max_seq_len (example_llama [0, 1, 0])
   \<and> total_len (example_llama [0, 1, 0]) [0, 1] 0 = int (length [0, 1 :: int])
   \<and> forward_calls (generate (example_llama [0, 1, 0]) [0, 1] 0 0 (9/10) True (\<lambda>p w. 0))
       = [([0, 1], 0)]
   \<and> yielded (generate (example_llama [0, 1, 0]) [0, 1] 0 0 (9/10) True (\<lambda>p w. 0)) = []
   \<and> raised (generate (example_llama [0, 1, 0]) [0, 1] 0 0 (9/10) True (\<lambda>p w. 0)) = None"
proof -
  have a: "1 \<le> max_batch_size (example_llama [0, 1, 0])"
    and b: "int (length [0, 1 :: int]) < max_seq_len (example_llama [0, 1, 0])"
    and c: "total_len (example_llama [0, 1, 0]) [0, 1] 0 = int (length [0, 1 :: int])"
    by (simp_all add: example_llama_def total_len_def)
  have r: "raised (generate (example_llama [0, 1, 0]) [0, 1] 0 0 (9/10) True (\<lambda>p w. 0)) = None"
    by (simp add: run_defs upt_rec eval_nat_numeral)
  from full_prompt_single_forward [OF a b c, of 0 "9/10" True "\<lambda>p w. 0"] a b c r
  show ?thesis by simp
qed

subsection \<open>The greedy path\<close>

lemma sample_next_greedy:
  assumes "temperature \<le> 0"
  shows "sample_next temperature top_p draw logits =
    (if logits = [] then Inl IndexError
     else case argmax (last logits) of Inl e \<Rightarrow> Inl e | Inr k \<Rightarrow> Inr (int k))"
  using assms by (simp add: sample_next_def)

lemma decode_step_greedy:
  assumes "temperature \<le> 0" and "temperature' \<le> 0"
  shows "decode_step self temperature top_p logprobs draw text_mask st cur_pos
    = decode_step self temperature' top_p' logprobs draw' text_mask st cur_pos"
proof -
  have same: "sample_next temperature top_p draw = sample_next temperature' top_p' draw'"
    by (rule ext)
      (simp only: sample_next_greedy [OF assms(1)] sample_next_greedy [OF assms(2)])
  show ?thesis
    unfolding decode_step_def same ..
qed

lemma decode_loop_greedy:
  assumes "temperature \<le> 0" and "temperature' \<le> 0"
  shows "decode_loop self temperature top_p logprobs rng text_mask st ps
    = decode_loop self temperature' top_p' logprobs rng' text_mask st ps"
proof (induction ps arbitrary: st)
  case Nil
  show ?case by simp
next
  case (Cons p ps)
  have "decode_step self temperature top_p logprobs (rng p) text_mask st p
      = decode_step self temperature' top_p' logprobs (rng' p) text_mask st p"
    using assms by (rule decode_step_greedy)
  with Cons.IH show ?case by (simp add: Let_def)
qed

text \<open>
  Claim C8. For \<open>temperature \<le> 0\<close> the run of \<^verbatim>\<open>generate\<close> is a function of the prompt,
  the budget and the forward pass alone: it is the same for every random source and every
  \<open>top_p\<close>, because each step takes the arg-max of the raw logits of the last position
  and never calls the nucleus sampler.
\<close>

theorem greedy_deterministic:
  assumes "temperature \<le> 0" and "temperature' \<le> 0"
  shows "generate self prompt max_gen_len temperature top_p logprobs rng
           = generate self prompt max_gen_len temperature' top_p' logprobs rng'
    \<and> (\<forall>draw logits. sample_next temperature top_p draw logits =
          (if logits = [] then Inl IndexError
           else case argmax (last logits) of Inl e \<Rightarrow> Inl e | Inr k \<Rightarrow> Inr (int k)))"
proof -
  have "generate self prompt max_gen_len temperature top_p logprobs rng
      = generate self prompt max_gen_len temperature' top_p' logprobs rng'"
    unfolding generate_def Let_def
    by (simp only: decode_loop_greedy [OF assms, of self top_p logprobs rng _ _ _ top_p' rng'])
  then show ?thesis
    using sample_next_greedy [OF assms(1)] by simp
qed

theorem greedy_deterministic_witness:
  "(0::real) \<le> 0 \<and> (- 1 :: real) \<le> 0
   \<and> generate (example_llama [0, 1, 0]) [0, 5] 2 0 (9/10) False (\<lambda>p w. 0)
     = generate (example_llama [0, 1, 0]) [0, 5] 2 (- 1) (1/2) False (\<lambda>p w. 7)
   \<and> map tr_token (yielded (generate (example_llama [0, 1, 0]) [0, 5] 2 0 (9/10) False (\<lambda>p w. 0)))
     = [1, 1]"
proof -
  have a: "(0::real) \<le> 0" and b: "(- 1 :: real) \<le> 0" by simp_all
  have y: "map tr_token
      (yielded (generate (example_llama [0, 1, 0]) [0, 5] 2 0 (9/10) False (\<lambda>p w. 0))) = [1, 1]"
    by (simp add: run_defs upt_rec eval_nat_numeral)
  from greedy_deterministic [OF a b, of "example_llama [0, 1, 0]" "[0, 5]" 2 "9/10" False
      "\<lambda>p w. 0" "1/2" "\<lambda>p w. 7"] y
  show ?thesis by simp
qed

subsection \<open>A \<open>top_p\<close> outside \<open>(0, 1]\<close>\<close>

lemma sum_list_take_nonneg:
  assumes "\<And>x. x \<in> set xs \<Longrightarrow> (0::real) \<le> x"
  shows "0 \<le> sum_list (take i xs)"
  by (rule sum_list_nonneg) (use assms in_set_takeD in fast)

lemma sum_list_all_zero:
  assumes "\<And>x. x \<in> set xs \<Longrightarrow> x = (0::real)"
  shows "sum_list xs = 0"
  using assms by (induction xs) simp_all

lemma sum_list_exp_positive:
  assumes "xs \<noteq> []"
  shows "0 < sum_list (map exp (xs :: real list))"
proof (cases xs)
  case Nil
  with assms show ?thesis by simp
next
  case (Cons x rest)
  have "0 \<le> sum_list (map exp rest)"
    by (rule sum_list_nonneg) auto
  moreover have "0 < exp x" by simp
  ultimately have "0 < exp x + sum_list (map exp rest)" by linarith
  then show ?thesis using Cons by simp
qed

lemma sample_top_p_negative:
  assumes "list_all (\<lambda>x. 0 \<le> x) probs" and "p < 0"
  shows "sample_top_p draw probs p = Inl RuntimeError"
proof -
  have masked: "top_p_mask probs p ! i" if "i < length probs" for i
  proof -
    have "0 \<le> sum_list (take i (probs_sort probs))"
      by (rule sum_list_take_nonneg)
        (use assms(1) in \<open>simp add: set_probs_sort list_all_iff\<close>)
    then show ?thesis using that assms(2) by (simp add: top_p_mask_nth)
  qed
  have "x = 0" if "x \<in> set (top_p_kept probs p)" for x
  proof -
    from that obtain i where "i < length probs" "top_p_kept probs p ! i = x"
      by (auto simp: in_set_conv_nth length_top_p_kept)
    then show ?thesis using masked by (simp add: top_p_kept_nth)
  qed
  then have "sum_list (top_p_kept probs p) = 0"
    by (rule sum_list_all_zero)
  then show ?thesis by (simp add: sample_top_p_def)
qed

lemma softmax_nonneg: "list_all (\<lambda>x. 0 \<le> x) (softmax row)"
proof -
  have "0 \<le> sum_list (map exp row)"
    by (rule sum_list_nonneg) auto
  then show ?thesis by (simp add: softmax_def list_all_iff)
qed

lemma sample_next_negative:
  assumes "0 < temperature" and "top_p < 0" and "logits \<noteq> []"
  shows "sample_next temperature top_p draw logits = Inl RuntimeError"
  using sample_top_p_negative [OF softmax_nonneg assms(2)] assms(1,3)
  by (simp add: sample_next_def)

text \<open>
  With a positive temperature and a negative \<open>top_p\<close> a step runs its forward pass and then
  raises: whatever the forward pass raised, or for empty logits the indexing of their last
  position, or else the sampler.
\<close>

lemma decode_step_negative:
  assumes "0 < temperature" and "top_p < 0"
  shows "\<exists>e. decode_step self temperature top_p logprobs draw text_mask st cur_pos
        = st\<lparr>forward_calls := forward_calls st
                 @ [(slice (tokens st) (prev_pos st) cur_pos, prev_pos st)],
             raised := Some e\<rparr>
    \<and> (\<forall>logits. forward self (slice (tokens st) (prev_pos st) cur_pos) (prev_pos st)
                  = Inr logits \<and> logits \<noteq> []
          \<longrightarrow> e = RuntimeError)"
proof (cases "forward self (slice (tokens st) (prev_pos st) cur_pos) (prev_pos st)")
  case (Inl e)
  then show ?thesis by (intro exI [of _ e]) (simp add: decode_step_def Let_def)
next
  case (Inr logits)
  show ?thesis
  proof (cases "logits = []")
    case True
    then have "sample_next temperature top_p draw logits = Inl IndexError"
      by (simp add: sample_next_def)
    then show ?thesis using Inr True
      by (intro exI [of _ IndexError]) (simp add: decode_step_def Let_def)
  next
    case False
    then have "sample_next temperature top_p draw logits = Inl RuntimeError"
      using assms by (intro sample_next_negative)
    then show ?thesis using Inr
      by (intro exI [of _ RuntimeError]) (simp add: decode_step_def Let_def)
  qed
qed

lemma decode_loop_forward_calls:
  "\<exists>more. forward_calls (decode_loop self temperature top_p logprobs rng text_mask st ps)
     = forward_calls st @ more"
proof (induction ps arbitrary: st)
  case Nil
  show ?case by simp
next
  case (Cons p ps)
  let ?st' = "decode_step self temperature top_p logprobs (rng p) text_mask st p"
  from Cons.IH [of ?st'] obtain more where
    "forward_calls (decode_loop self temperature top_p logprobs rng text_mask ?st' ps)
       = forward_calls ?st' @ more"
    by blast
  then show ?case
    by (auto simp: Let_def decode_step_forward_calls)
qed

lemma generate_first_forward:
  assumes "1 \<le> max_batch_size self" and "int (length prompt) < max_seq_len self"
    and "int (length prompt) < total_len self prompt max_gen_len"
  shows "\<exists>more. forward_calls (generate self prompt max_gen_len temperature top_p logprobs rng)
     = (prompt, 0) # more"
proof -
  let ?T = "total_len self prompt max_gen_len"
  let ?toks = "prompt @ replicate (nat ?T - length prompt) (pad_id self)"
  have init: "init_tokens (pad_id self) ?T prompt = Inr ?toks"
    using assms(3) by (intro init_tokens_fits) simp
  from generate_accepted [OF assms(1,2) init, of temperature top_p logprobs rng] assms(3)
  obtain st2 where st2: "tokens st2 = ?toks" "prev_pos st2 = 0" "raised st2 = None"
      "forward_calls st2 = []"
    and run: "generate self prompt max_gen_len temperature top_p logprobs rng =
        decode_loop self temperature top_p logprobs rng (input_text_mask self ?toks) st2
          [length prompt..<nat ?T]"
    by auto
  have ps: "[length prompt..<nat ?T] = length prompt # [Suc (length prompt)..<nat ?T]"
    using assms(3) by (intro upt_conv_Cons) simp
  let ?st' = "decode_step self temperature top_p logprobs (rng (length prompt))
      (input_text_mask self ?toks) st2 (length prompt)"
  have first: "forward_calls ?st' = [(prompt, 0)]"
    using st2 by (simp add: decode_step_forward_calls slice_def)
  obtain more where "forward_calls
      (decode_loop self temperature top_p logprobs rng (input_text_mask self ?toks) ?st'
         [Suc (length prompt)..<nat ?T]) = forward_calls ?st' @ more"
    using decode_loop_forward_calls by blast
  then show ?thesis
    unfolding run ps using first by (auto simp: Let_def)
qed

lemma generate_negative_top_p:
  assumes "1 \<le> max_batch_size self" and "int (length prompt) < max_seq_len self"
    and "int (length prompt) < total_len self prompt max_gen_len"
    and "0 < temperature" and "top_p < 0"
  shows "forward_calls (generate self prompt max_gen_len temperature top_p logprobs rng)
           = [(prompt, 0)]
    \<and> yielded (generate self prompt max_gen_len temperature top_p logprobs rng) = []
    \<and> raised (generate self prompt max_gen_len temperature top_p logprobs rng) \<noteq> None
    \<and> (\<forall>logits. forward self prompt 0 = Inr logits \<and> logits \<noteq> []
          \<longrightarrow> raised (generate self prompt max_gen_len temperature top_p logprobs rng)
              = Some RuntimeError)"
proof -
  let ?T = "total_len self prompt max_gen_len"
  let ?toks = "prompt @ replicate (nat ?T - length prompt) (pad_id self)"
  have init: "init_tokens (pad_id self) ?T prompt = Inr ?toks"
    using assms(3) by (intro init_tokens_fits) simp
  from generate_accepted [OF assms(1,2) init, of temperature top_p logprobs rng] assms(3)
  obtain st2 where st2: "tokens st2 = ?toks" "prev_pos st2 = 0" "raised st2 = None"
      "forward_calls st2 = []" "yielded st2 = []"
    and run: "generate self prompt max_gen_len temperature top_p logprobs rng =
        decode_loop self temperature top_p logprobs rng (input_text_mask self ?toks) st2
          [length prompt..<nat ?T]"
    by auto
  have ps: "[length prompt..<nat ?T] = length prompt # [Suc (length prompt)..<nat ?T]"
    using assms(3) by (intro upt_conv_Cons) simp
  let ?st' = "decode_step self temperature top_p logprobs (rng (length prompt))
      (input_text_mask self ?toks) st2 (length prompt)"
  have window: "slice (tokens st2) 0 (length prompt) = prompt"
    using st2(1) by (simp add: slice_def)
  from decode_step_negative [OF assms(4,5), of self logprobs "rng (length prompt)"
      "input_text_mask self ?toks" st2 "length prompt"]
  obtain e where step: "?st' = st2\<lparr>forward_calls := forward_calls st2 @ [(prompt, 0)],
        raised := Some e\<rparr>"
    and sampler: "\<forall>logits. forward self prompt 0 = Inr logits \<and> logits \<noteq> []
        \<longrightarrow> e = RuntimeError"
    unfolding st2(2) window by blast
  have stopped: "raised ?st' \<noteq> None" by (simp add: step)
  have "generate self prompt max_gen_len temperature top_p logprobs rng = ?st'"
    unfolding run ps using stopped by (simp add: Let_def)
  then show ?thesis using step sampler st2(4,5) by simp
qed

text \<open>
  Claim C6, as amended. Nothing validates \<open>top_p\<close>. For every accepted prompt with
  budget to generate (\<open>prompt_len < total_len\<close>), \<^verbatim>\<open>generate\<close> calls the forward pass on the
  prompt first, whatever \<open>top_p\<close> is. With a positive temperature and a negative \<open>top_p\<close>
  that forward pass is the only one, no TokenResult is yielded and the call ends in an
  exception, the \<^verbatim>\<open>RuntimeError\<close> of the sampler whenever the forward pass returned logits
  for some position: on non-negative weights a negative \<open>top_p\<close> masks every entry, and
  \<^verbatim>\<open>sample_top_p\<close> raises. A \<open>top_p\<close> that is at least the total of non-negative weights
  that are not all zero masks no entry, and \<^verbatim>\<open>sample_top_p\<close> returns the token at the
  drawn index of the sorted order; it raises only for a drawn index out of range.
\<close>

theorem top_p_unchecked:
  "(1 \<le> max_batch_size self \<and> int (length prompt) < max_seq_len self
      \<and> int (length prompt) < total_len self prompt max_gen_len
    \<longrightarrow> (\<exists>more. forward_calls (generate self prompt max_gen_len temperature top_p logprobs rng)
                  = (prompt, 0) # more))
   \<and> (1 \<le> max_batch_size self \<and> int (length prompt) < max_seq_len self
      \<and> int (length prompt) < total_len self prompt max_gen_len
      \<and> 0 < temperature \<and> top_p < 0
    \<longrightarrow> forward_calls (generate self prompt max_gen_len temperature top_p logprobs rng)
          = [(prompt, 0)]
      \<and> yielded (generate self prompt max_gen_len temperature top_p logprobs rng) = []
      \<and> raised (generate self prompt max_gen_len temperature top_p logprobs rng) \<noteq> None
      \<and> (\<forall>logits. forward self prompt 0 = Inr logits \<and> logits \<noteq> []
            \<longrightarrow> raised (generate self prompt max_gen_len temperature top_p logprobs rng)
                = Some RuntimeError))
   \<and> (list_all (\<lambda>x. 0 \<le> x) probs \<and> p < 0
    \<longrightarrow> (\<forall>i < length probs. top_p_mask probs p ! i)
      \<and> sample_top_p draw probs p = Inl RuntimeError)
   \<and> (list_all (\<lambda>x. 0 \<le> x) probs \<and> 0 < sum_list probs \<and> sum_list probs \<le> p
    \<longrightarrow> top_p_mask probs p = replicate (length probs) False
      \<and> sample_top_p draw probs p
          = (if draw (top_p_renorm probs p) < length probs
             then Inr (probs_idx probs ! draw (top_p_renorm probs p))
             else Inl IndexError))"
proof -
  have first: "\<exists>more. forward_calls
        (generate self prompt max_gen_len temperature top_p logprobs rng) = (prompt, 0) # more"
    if "1 \<le> max_batch_size self" "int (length prompt) < max_seq_len self"
      "int (length prompt) < total_len self prompt max_gen_len"
    using that by (rule generate_first_forward)
  have negative: "forward_calls (generate self prompt max_gen_len temperature top_p logprobs rng)
          = [(prompt, 0)]
      \<and> yielded (generate self prompt max_gen_len temperature top_p logprobs rng) = []
      \<and> raised (generate self prompt max_gen_len temperature top_p logprobs rng) \<noteq> None
      \<and> (\<forall>logits. forward self prompt 0 = Inr logits \<and> logits \<noteq> []
            \<longrightarrow> raised (generate self prompt max_gen_len temperature top_p logprobs rng)
                = Some RuntimeError)"
    if "1 \<le> max_batch_size self" "int (length prompt) < max_seq_len self"
      "int (length prompt) < total_len self prompt max_gen_len" "0 < temperature" "top_p < 0"
    using that by (rule generate_negative_top_p)
  have all_masked: "(\<forall>i < length probs. top_p_mask probs p ! i)
      \<and> sample_top_p draw probs p = Inl RuntimeError"
    if nn: "list_all (\<lambda>x. 0 \<le> x) probs" and neg: "p < 0"
  proof -
    have "top_p_mask probs p ! i" if i: "i < length probs" for i
    proof -
      have "0 \<le> sum_list (take i (probs_sort probs))"
        by (rule sum_list_take_nonneg)
          (use nn in \<open>simp add: set_probs_sort list_all_iff\<close>)
      then show ?thesis using i neg by (simp add: top_p_mask_nth)
    qed
    moreover have "sample_top_p draw probs p = Inl RuntimeError"
      using nn neg by (rule sample_top_p_negative)
    ultimately show ?thesis by blast
  qed
  have none_masked: "top_p_mask probs p = replicate (length probs) False
      \<and> sample_top_p draw probs p
          = (if draw (top_p_renorm probs p) < length probs
             then Inr (probs_idx probs ! draw (top_p_renorm probs p))
             else Inl IndexError)"
    if nn: "list_all (\<lambda>x. 0 \<le> x) probs" and pos: "0 < sum_list probs"
      and le: "sum_list probs \<le> p"
  proof -
    have "top_p_mask probs p = replicate (length probs) False"
      using nn le by (rule top_p_mask_empty)
    moreover have "sample_top_p draw probs p
        = gather (probs_idx probs) (draw (top_p_renorm probs p))"
      using nn pos le by (rule sample_top_p_unmasked)
    ultimately show ?thesis by (simp add: gather_def length_probs_idx)
  qed
  from first negative all_masked none_masked show ?thesis by blast
qed

lemmas sampler_defs = softmax_def sample_top_p_def top_p_renorm_def top_p_kept_def top_p_mask_def
  probs_sort_def probs_idx_def sort_descending_def cumsum_def multinomial_def gather_def

theorem top_p_unchecked_witness:
  "(1 \<le> max_batch_size (example_llama [0, 0])
      \<and> int (length [0, 1 :: int]) < max_seq_len (example_llama [0, 0])
      \<and> int (length [0, 1 :: int]) < total_len (example_llama [0, 0]) [0, 1] 1)
   \<and> ((0 :: real) < 1 \<and> (- 1 :: real) < 0)
   \<and> forward (example_llama [0, 0]) [0, 1] 0 = Inr [[0, 0], [0, 0]]
   \<and> list_all (\<lambda>x. 0 \<le> x) [1/4, 1/2, 1/4 :: real]
   \<and> (0 < sum_list [1/4, 1/2, 1/4 :: real] \<and> sum_list [1/4, 1/2, 1/4 :: real] \<le> 2)
   \<and> (\<exists>more. forward_calls (generate (example_llama [0, 0]) [0, 1] 1 1 (- 1) False (\<lambda>p w. 0))
                = ([0, 1], 0) # more)
   \<and> forward_calls (generate (example_llama [0, 0]) [0, 1] 1 1 (- 1) False (\<lambda>p w. 0))
       = [([0, 1], 0)]
   \<and> yielded (generate (example_llama [0, 0]) [0, 1] 1 1 (- 1) False (\<lambda>p w. 0)) = []
   \<and> raised (generate (example_llama [0, 0]) [0, 1] 1 1 (- 1) False (\<lambda>p w. 0))
       = Some RuntimeError
   \<and> top_p_mask [1/4, 1/2, 1/4] (- 1) ! 0 \<and> top_p_mask [1/4, 1/2, 1/4] (- 1) ! 2
   \<and> sample_top_p (\<lambda>w. 0) [1/4, 1/2, 1/4] (- 1) = Inl RuntimeError
   \<and> top_p_mask [1/4, 1/2, 1/4] 2 = [False, False, False]
   \<and> sample_top_p (\<lambda>w. 0) [1/4, 1/2, 1/4] 2 = Inr (probs_idx [1/4, 1/2, 1/4] ! 0)"
proof -
  have a: "1 \<le> max_batch_size (example_llama [0, 0])
      \<and> int (length [0, 1 :: int]) < max_seq_len (example_llama [0, 0])
      \<and> int (length [0, 1 :: int]) < total_len (example_llama [0, 0]) [0, 1] 1"
    by (simp add: example_llama_def total_len_def)
  have t: "(0 :: real) < 1 \<and> (- 1 :: real) < 0" by simp
  have f: "forward (example_llama [0, 0]) [0, 1] 0 = Inr [[0, 0], [0, 0]]"
    by (simp add: example_llama_def)
  have ne: "[[0, 0], [0, 0 :: real]] \<noteq> []" by simp
  have nn: "list_all (\<lambda>x. 0 \<le> x) [1/4, 1/2, 1/4 :: real]" by simp
  have n: "(- 1 :: real) < 0" by simp
  have m: "0 < sum_list [1/4, 1/2, 1/4 :: real] \<and> sum_list [1/4, 1/2, 1/4 :: real] \<le> 2"
    by simp
  have len: "length [1/4, 1/2, 1/4 :: real] = 3" and i0: "(0::nat) < 3" and i2: "(2::nat) < 3"
    by simp_all
  note neg = top_p_unchecked [of "example_llama [0, 0]" "[0, 1]" 1 1 "- 1" False "\<lambda>p w. 0"
      "[1/4, 1/2, 1/4]" "- 1" "\<lambda>w. 0"]
  note big = top_p_unchecked [of "example_llama [0, 0]" "[0, 1]" 1 1 "- 1" False "\<lambda>p w. 0"
      "[1/4, 1/2, 1/4]" 2 "\<lambda>w. 0"]
  from neg a t f ne
  have g: "(\<exists>more. forward_calls (generate (example_llama [0, 0]) [0, 1] 1 1 (- 1) False
        (\<lambda>p w. 0)) = ([0, 1], 0) # more)"
    "forward_calls (generate (example_llama [0, 0]) [0, 1] 1 1 (- 1) False (\<lambda>p w. 0))
       = [([0, 1], 0)]"
    "yielded (generate (example_llama [0, 0]) [0, 1] 1 1 (- 1) False (\<lambda>p w. 0)) = []"
    "raised (generate (example_llama [0, 0]) [0, 1] 1 1 (- 1) False (\<lambda>p w. 0))
       = Some RuntimeError"
    by blast+
  from neg nn n len i0 i2
  have s: "top_p_mask [1/4, 1/2, 1/4] (- 1) ! 0" "top_p_mask [1/4, 1/2, 1/4] (- 1) ! 2"
    "sample_top_p (\<lambda>w. 0) [1/4, 1/2, 1/4] (- 1) = Inl RuntimeError"
    by metis+
  from big nn m
  have b: "top_p_mask [1/4, 1/2, 1/4] 2 = replicate (length [1/4, 1/2, 1/4 :: real]) False"
    "sample_top_p (\<lambda>w. 0) [1/4, 1/2, 1/4] 2
       = (if (0::nat) < length [1/4, 1/2, 1/4 :: real]
          then Inr (probs_idx [1/4, 1/2, 1/4] ! 0) else Inl IndexError)"
    by blast+
  have b': "top_p_mask [1/4, 1/2, 1/4] 2 = [False, False, False]"
    "sample_top_p (\<lambda>w. 0) [1/4, 1/2, 1/4] 2 = Inr (probs_idx [1/4, 1/2, 1/4] ! 0)"
    using b by (simp_all add: eval_nat_numeral)
  from a t f nn m g s b' show ?thesis by blast
qed

text \<open>
  The claim as it was stated fails: with \<open>top_p = 2\<close> the forward pass runs and a
  TokenResult is yielded without any failure; with \<open>top_p = -1\<close> the call fails, but only
  in the sampler, after the forward pass has run.
\<close>

theorem top_p_unchecked_counterexample:
  "\<not> (0 < (2::real) \<and> (2::real) \<le> 1)
   \<and> forward_calls (generate (example_llama [0, 0]) [0, 1] 1 1 2 False (\<lambda>p w. 0))
     = [([0, 1], 0)]
   \<and> map tr_token (yielded (generate (example_llama [0, 0]) [0, 1] 1 1 2 False (\<lambda>p w. 0))) = [0]
   \<and> raised (generate (example_llama [0, 0]) [0, 1] 1 1 2 False (\<lambda>p w. 0)) = None
   \<and> \<not> (0 < (- 1 :: real) \<and> (- 1 :: real) \<le> 1)
   \<and> forward_calls (generate (example_llama [0, 0]) [0, 1] 1 1 (- 1) False (\<lambda>p w. 0))
     = [([0, 1], 0)]
   \<and> raised (generate (example_llama [0, 0]) [0, 1] 1 1 (- 1) False (\<lambda>p w. 0))
     = Some RuntimeError"
  by (simp add: run_defs sampler_defs upt_rec eval_nat_numeral)

subsection \<open>The stop reason of a chat completion\<close>

lemma generate_yielded_shape:
  "(\<forall>r\<in>set (yielded (generate self prompt max_gen_len temperature top_p logprobs rng)).
      tr_text r = tok_decode self [tr_token r])
   \<and> (\<forall>r\<in>set (butlast (yielded (generate self prompt max_gen_len temperature top_p logprobs rng))).
        tr_token r \<notin> set (stop_tokens self))"
proof (cases "1 \<le> max_batch_size self \<and> int (length prompt) < max_seq_len self
    \<and> (\<exists>toks. init_tokens (pad_id self) (total_len self prompt max_gen_len) prompt = Inr toks)")
  case False
  from generate_not_accepted [OF False, of temperature top_p logprobs rng]
  show ?thesis by simp
next
  case True
  then obtain toks where acc: "1 \<le> max_batch_size self"
      "int (length prompt) < max_seq_len self"
      "init_tokens (pad_id self) (total_len self prompt max_gen_len) prompt = Inr toks"
    by blast
  from generate_yielded [OF acc, of temperature top_p logprobs rng]
  show ?thesis by simp
qed

lemma fold_stop_reason_unmarked:
  assumes "\<forall>r\<in>set results. tr_text r \<noteq> ''<|eot_id|>'' \<and> tr_text r \<noteq> ''<|eom_id|>''"
  shows "fold (\<lambda>result stop_reason. stop_reason_step stop_reason result) results s = s"
  using assms by (induction results arbitrary: s) (simp_all add: stop_reason_step_def)

text \<open>When no result but the last can be a marker, the last result decides.\<close>

lemma chat_stop_reason_last:
  assumes "\<forall>r\<in>set (butlast results).
      tr_text r \<noteq> ''<|eot_id|>'' \<and> tr_text r \<noteq> ''<|eom_id|>''"
    and "results \<noteq> []"
  shows "chat_stop_reason results =
    (if tr_text (last results) = ''<|eot_id|>'' then end_of_turn
     else if tr_text (last results) = ''<|eom_id|>'' then end_of_message
     else out_of_tokens)"
proof -
  have "fold (\<lambda>result stop_reason. stop_reason_step stop_reason result) results None
      = stop_reason_step
          (fold (\<lambda>result stop_reason. stop_reason_step stop_reason result) (butlast results) None)
          (last results)"
  proof -
    have "fold (\<lambda>result stop_reason. stop_reason_step stop_reason result)
            (butlast results @ [last results]) None
        = stop_reason_step
            (fold (\<lambda>result stop_reason. stop_reason_step stop_reason result) (butlast results) None)
            (last results)"
      by (simp only: fold_append fold_simps comp_def id_apply)
    then show ?thesis using assms(2) by simp
  qed
  also have "\<dots> = stop_reason_step None (last results)"
    by (simp only: fold_stop_reason_unmarked [OF assms(1)])
  finally show ?thesis
    by (simp add: chat_stop_reason_def stop_reason_step_def)
qed

text \<open>
  Claim C7. The tokenizer is not part of the file; it is assumed, as the stop-token contract
  says, that every token whose decoded text is the end-of-turn or the end-of-message marker
  is a stop token. Then in a chat completion at most one emitted token decodes to a marker
  (so the loop assigns the stop reason at most once, and the default assigns it otherwise);
  the stop reason is \<open>end_of_turn\<close> if some emitted token decodes to the end-of-turn
  marker, \<open>end_of_message\<close> if some emitted token decodes to the end-of-message marker,
  and \<open>out_of_tokens\<close> if none decodes to either; it is the stop reason handed to
  \<^verbatim>\<open>decode_assistant_message\<close>.
\<close>

theorem chat_stop_reason_classified:
  assumes "\<forall>t. tok_decode self [t] = ''<|eot_id|>'' \<or> tok_decode self [t] = ''<|eom_id|>''
             \<longrightarrow> t \<in> set (stop_tokens self)"
    and "results = yielded (generate self (encode_dialog_prompt formatter messages tool_prompt_format)
                     (resolve_max_gen_len self max_gen_len) temperature top_p logprobs rng)"
  shows "((\<exists>r\<in>set results. tr_text r = ''<|eot_id|>'') \<longrightarrow> chat_stop_reason results = end_of_turn)
    \<and> ((\<exists>r\<in>set results. tr_text r = ''<|eom_id|>'')
         \<longrightarrow> chat_stop_reason results = end_of_message)
    \<and> ((\<forall>r\<in>set results. tr_text r \<noteq> ''<|eot_id|>'' \<and> tr_text r \<noteq> ''<|eom_id|>'')
         \<longrightarrow> chat_stop_reason results = out_of_tokens)
    \<and> length (filter (\<lambda>r. tr_text r = ''<|eot_id|>'' \<or> tr_text r = ''<|eom_id|>'') results) \<le> 1
    \<and> (raised (generate self (encode_dialog_prompt formatter messages tool_prompt_format)
                 (resolve_max_gen_len self max_gen_len) temperature top_p logprobs rng) = None
        \<longrightarrow> (\<exists>prediction.
               chat_completion self formatter messages temperature top_p max_gen_len logprobs
                 tool_prompt_format rng = Inr prediction
               \<and> chat_generation prediction
                   = decode_assistant_message formatter (map tr_token results)
                       (chat_stop_reason results)))"
proof -
  let ?marker = "\<lambda>r. tr_text r = ''<|eot_id|>'' \<or> tr_text r = ''<|eom_id|>''"
  from generate_yielded_shape
    [of self "encode_dialog_prompt formatter messages tool_prompt_format"
        "resolve_max_gen_len self max_gen_len" temperature top_p logprobs rng]
  have texts: "\<forall>r\<in>set results. tr_text r = tok_decode self [tr_token r]"
    and early: "\<forall>r\<in>set (butlast results). tr_token r \<notin> set (stop_tokens self)"
    unfolding assms(2) by simp_all
  have unmarked: "\<forall>r\<in>set (butlast results). \<not> ?marker r"
  proof
    fix r assume r: "r \<in> set (butlast results)"
    then have "r \<in> set results" by (rule in_set_butlastD)
    with texts have t: "tr_text r = tok_decode self [tr_token r]" by simp
    from early r have "tr_token r \<notin> set (stop_tokens self)" by simp
    with assms(1) have "\<not> (tok_decode self [tr_token r] = ''<|eot_id|>''
        \<or> tok_decode self [tr_token r] = ''<|eom_id|>'')"
      by blast
    with t show "\<not> ?marker r" by simp
  qed
  then have unmarked': "\<forall>r\<in>set (butlast results).
      tr_text r \<noteq> ''<|eot_id|>'' \<and> tr_text r \<noteq> ''<|eom_id|>''"
    by simp
  have only_last: "r = last results \<and> results \<noteq> []" if "r \<in> set results" "?marker r" for r
  proof -
    from that(1) have ne: "results \<noteq> []" by auto
    then have "r \<in> set (butlast results @ [last results])"
      using that(1) by simp
    then have "r \<in> set (butlast results) \<union> set [last results]"
      unfolding set_append .
    then have "r \<in> set (butlast results) \<or> r = last results" by auto
    with that(2) unmarked ne show ?thesis by blast
  qed
  have eot: "chat_stop_reason results = end_of_turn"
    if "\<exists>r\<in>set results. tr_text r = ''<|eot_id|>''"
  proof -
    from that obtain r where "r \<in> set results" "tr_text r = ''<|eot_id|>''" by blast
    with only_last [of r] have "results \<noteq> []" "tr_text (last results) = ''<|eot_id|>''"
      by simp_all
    then show ?thesis by (simp add: chat_stop_reason_last [OF unmarked'])
  qed
  have eom: "chat_stop_reason results = end_of_message"
    if "\<exists>r\<in>set results. tr_text r = ''<|eom_id|>''"
  proof -
    from that obtain r where "r \<in> set results" "tr_text r = ''<|eom_id|>''" by blast
    with only_last [of r] have "results \<noteq> []" "tr_text (last results) = ''<|eom_id|>''"
      by simp_all
    then show ?thesis by (simp add: chat_stop_reason_last [OF unmarked'])
  qed
  have none: "chat_stop_reason results = out_of_tokens"
    if "\<forall>r\<in>set results. tr_text r \<noteq> ''<|eot_id|>'' \<and> tr_text r \<noteq> ''<|eom_id|>''"
    using fold_stop_reason_unmarked [OF that] by (simp add: chat_stop_reason_def)
  have once: "length (filter ?marker results) \<le> 1"
  proof (cases "results = []")
    case True
    then show ?thesis by simp
  next
    case False
    then have "filter ?marker results = filter ?marker (butlast results @ [last results])"
      by simp
    also have "\<dots> = filter ?marker (butlast results) @ filter ?marker [last results]"
      by (rule filter_append)
    also have "filter ?marker (butlast results) = []"
      using unmarked by (simp add: filter_empty_conv)
    finally have "filter ?marker results = filter ?marker [last results]" by simp
    moreover have "length (filter ?marker [last results]) \<le> 1" by simp
    ultimately show ?thesis by simp
  qed
  have returned: "\<exists>prediction.
      chat_completion self formatter messages temperature top_p max_gen_len logprobs
        tool_prompt_format rng = Inr prediction
      \<and> chat_generation prediction
          = decode_assistant_message formatter (map tr_token results) (chat_stop_reason results)"
    if "raised (generate self (encode_dialog_prompt formatter messages tool_prompt_format)
          (resolve_max_gen_len self max_gen_len) temperature top_p logprobs rng) = None"
    using that unfolding assms(2) by (simp add: chat_completion_def Let_def)
  from eot eom none once returned show ?thesis by blast
qed

text \<open>
  The instance satisfies the assumption on the tokenizer: its only token that decodes to a
  marker is the stop token 2.
\<close>

theorem chat_stop_reason_classified_witness:
  "stop_tokens (example_llama [0, 1, 3]) = [2]
   \<and> tok_decode (example_llama [0, 1, 3]) [2] = ''<|eot_id|>''
   \<and> yielded (generate (example_llama [0, 1, 3])
        (encode_dialog_prompt
           \<lparr>encode_dialog_prompt = (\<lambda>m f. m), decode_assistant_message = (\<lambda>ts sr. (ts, sr))\<rparr>
           [0, 5] ())
        (resolve_max_gen_len (example_llama [0, 1, 3]) None) 0 (9/10) False (\<lambda>p w. 0))
     = [\<lparr>tr_token = 2, tr_text = ''<|eot_id|>'', tr_logprobs = None\<rparr>]
   \<and> chat_stop_reason (yielded (generate (example_llama [0, 1, 3])
        (encode_dialog_prompt
           \<lparr>encode_dialog_prompt = (\<lambda>m f. m), decode_assistant_message = (\<lambda>ts sr. (ts, sr))\<rparr>
           [0, 5] ())
        (resolve_max_gen_len (example_llama [0, 1, 3]) None) 0 (9/10) False (\<lambda>p w. 0)))
     = end_of_turn
   \<and> chat_completion (example_llama [0, 1, 3])
        \<lparr>encode_dialog_prompt = (\<lambda>m f. m), decode_assistant_message = (\<lambda>ts sr. (ts, sr))\<rparr>
        [0, 5] 0 (9/10) None False () (\<lambda>p w. 0)
     = Inr \<lparr>chat_generation = ([2], end_of_turn), chat_decoded_tokens = None,
            chat_logprobs = None\<rparr>"
proof -
  let ?fmt = "\<lparr>encode_dialog_prompt = (\<lambda>m f. m), decode_assistant_message = (\<lambda>ts sr. (ts, sr))\<rparr>
    :: (int list, unit, int list \<times> StopReason) ChatFormat"
  let ?results = "yielded (generate (example_llama [0, 1, 3]) (encode_dialog_prompt ?fmt [0, 5] ())
    (resolve_max_gen_len (example_llama [0, 1, 3]) None) 0 (9/10) False (\<lambda>p w. 0))"
  have h: "\<forall>t. tok_decode (example_llama [0, 1, 3]) [t] = ''<|eot_id|>''
        \<or> tok_decode (example_llama [0, 1, 3]) [t] = ''<|eom_id|>''
      \<longrightarrow> t \<in> set (stop_tokens (example_llama [0, 1, 3]))"
    by (simp add: example_llama_def)
  have y: "?results = [\<lparr>tr_token = 2, tr_text = ''<|eot_id|>'', tr_logprobs = None\<rparr>]"
    by (simp add: resolve_max_gen_len_def run_defs upt_rec eval_nat_numeral)
  have some: "\<exists>r\<in>set ?results. tr_text r = ''<|eot_id|>''"
    unfolding y by simp
  from chat_stop_reason_classified [OF h refl, of ?fmt "[0, 5]" "()" None 0 "9/10" False "\<lambda>p w. 0"]
    some
  have sr: "chat_stop_reason ?results = end_of_turn" by blast
  have c: "chat_completion (example_llama [0, 1, 3]) ?fmt [0, 5] 0 (9/10) None False ()
      (\<lambda>p w. 0)
      = Inr \<lparr>chat_generation = ([2], end_of_turn), chat_decoded_tokens = None,
             chat_logprobs = None\<rparr>"
    using sr y
    by (simp add: chat_completion_def Let_def)
      (simp add: resolve_max_gen_len_def run_defs upt_rec eval_nat_numeral)
  have t: "stop_tokens (example_llama [0, 1, 3]) = [2]"
      "tok_decode (example_llama [0, 1, 3]) [2] = ''<|eot_id|>''"
    by (simp_all add: example_llama_def)
  from t y sr c show ?thesis by blast
qed

end
